theory Spec2Isabelle
  imports Complex_Main
begin

section \<open>Browser objects shared by the two views\<close>

text \<open>
  The repository's front end has two React components with their own copy of the capture
  loop: \<open>Home\<close> (the developer view, \<open>page.tsx\<close>) and \<open>DriverView\<close>
  (\<open>driver/page.tsx\<close>). Both drive the same browser objects: a video element fed by a
  media stream, a hidden canvas, an interval timer and HTTP requests.

  React state setters are modelled as assignments to the latest state value: no handler
  of either component reads a state variable back except the two thresholds of \<open>Home\<close>,
  which a handler sees through the closure it was created in. What a closure captured is
  therefore carried along with every callback (type parameter \<open>'c\<close> below).
\<close>

type_synonym MediaStreamTrack = nat
type_synonym MediaStream = "MediaStreamTrack list"
type_synonym Blob = "nat list"
type_synonym Timeout = nat

text \<open>
  The video element: the fields the code reads or writes, and the \<open>loadedmetadata\<close>
  listeners registered with \<open>{ once: true }\<close>, each with what its closure captured.
\<close>

record 'c HTMLVideoElement =
  srcObject :: "MediaStream option"
  paused :: bool
  ended :: bool
  videoWidth :: nat
  videoHeight :: nat
  loadedmetadata :: "'c list"

record HTMLCanvasElement =
  width :: nat
  height :: nat

text \<open>What the canvas answers in one cycle: \<open>getContext('2d')\<close> may return null, and
  \<open>drawImage\<close> may throw.\<close>

record CanvasEnv =
  getContext :: bool
  drawImageThrows :: bool

text \<open>\<open>video.play()\<close>: the element leaves the paused state; a rejected promise is only
  logged by the callers (\<open>.catch(err => console.error(...))\<close>).\<close>

definition play :: "'c HTMLVideoElement \<Rightarrow> 'c HTMLVideoElement" where
  "play v = v\<lparr>paused := False\<rparr>"

text \<open>
  One \<open>axios.post\<close>: the URL path below \<open>BACKEND_URL\<close>, the query parameters appended
  to it (name and number; \<open>toString\<close> is the number's text), the multipart field
  \<open>file\<close> with its file name, and the timeout option.
\<close>

record Request =
  url :: string
  searchParams :: "(string \<times> real) list"
  formData_file :: Blob
  filename :: string
  timeout :: nat

text \<open>What a rejected \<open>axios.post\<close> throws: \<open>axios.isAxiosError(err)\<close>, \<open>err.code\<close>,
  the status of \<open>err.response\<close> when there is one, and whether \<open>err.request\<close> is set.\<close>

record AxiosError =
  isAxiosError :: bool
  code :: "string option"
  response :: "nat option"
  request :: bool

datatype 'r Outcome = Fulfilled 'r | Rejected AxiosError

section \<open>The developer view (\<open>Home\<close>)\<close>

record DetectionResponse =
  fog_detected :: bool
  laplacian_variance :: real
  histogram_std_dev :: real
  message :: "string option"
  timestamp :: "string option"
  histogram :: "real list option"
  laplacian_threshold_used :: "real option"
  std_dev_threshold_used :: "real option"

record HistogramData =
  bin :: nat
  frequency :: real

definition DETECTION_INTERVAL_MS :: nat where
  "DETECTION_INTERVAL_MS = 1000"

definition DEFAULT_LAPLACIAN_THRESHOLD :: real where
  "DEFAULT_LAPLACIAN_THRESHOLD = 250"

definition DEFAULT_HIST_STD_DEV_THRESHOLD :: real where
  "DEFAULT_HIST_STD_DEV_THRESHOLD = 40"

text \<open>What a \<open>captureAndDetect\<close> closure of \<open>Home\<close> captured: \<open>laplacianThreshold\<close> and
  \<open>histStdDevThreshold\<close> of the render that created it.\<close>

type_synonym Captured = "real \<times> real"

text \<open>
  The component's refs and state variables, followed by the browser's side of the
  session: the active intervals (handle, delay, captured values), the next handle
  \<open>setInterval\<close> returns, the tracks on which \<open>stop()\<close> was called, the pending
  \<open>toBlob\<close> callbacks, the requests that have not resolved, and the pending
  \<open>getUserMedia\<close> promises.
\<close>

record HomeState =
  videoRef :: "Captured HTMLVideoElement option"
  canvasRef :: "HTMLCanvasElement option"
  intervalRef :: "Timeout option"
  isCameraOn :: bool
  isCameraOnRef :: bool
  detectionResult :: "DetectionResponse option"
  error :: "string option"
  isLoading :: bool
  isDetecting :: bool
  histogramData :: "HistogramData list"
  laplacianThreshold :: real
  histStdDevThreshold :: real
  intervals :: "(Timeout \<times> nat \<times> Captured) list"
  nextTimeout :: Timeout
  stoppedTracks :: "MediaStreamTrack set"
  toBlobQueue :: "Captured list"
  inflight :: "Request list"
  getUserMediaPending :: "Captured list"

text \<open>\<open>captureAndDetect\<close> up to the call of \<open>canvas.toBlob\<close>, which queues its callback.\<close>

definition captureAndDetect :: "Captured \<Rightarrow> CanvasEnv \<Rightarrow> HomeState \<Rightarrow> HomeState" where
  "captureAndDetect c env s =
     (case videoRef s of
        None \<Rightarrow> s
      | Some video \<Rightarrow>
         (case canvasRef s of
            None \<Rightarrow> s
          | Some canvas \<Rightarrow>
              if \<not> isCameraOnRef s \<or> paused video \<or> ended video then s
              else
                let canvas' =
                      (if width canvas \<noteq> videoWidth video \<or> height canvas \<noteq> videoHeight video
                       then canvas\<lparr>width := videoWidth video, height := videoHeight video\<rparr>
                       else canvas);
                    s1 = s\<lparr>canvasRef := Some canvas'\<rparr>
                in if \<not> getContext env then s1
                   else if drawImageThrows env then s1
                   else s1\<lparr>toBlobQueue := toBlobQueue s1 @ [c]\<rparr>))"

text \<open>The callback given to \<open>toBlob\<close>, up to the \<open>await\<close> of \<open>axios.post\<close>.\<close>

definition captureAndDetect_toBlob :: "Captured \<Rightarrow> Blob option \<Rightarrow> HomeState \<Rightarrow> HomeState" where
  "captureAndDetect_toBlob c blob s =
     (case blob of
        None \<Rightarrow> s
      | Some b \<Rightarrow>
          s\<lparr>isDetecting := True,
            inflight := inflight s @
              [\<lparr>url = ''/detect-fog'',
                searchParams = [(''laplacian_threshold'', fst c), (''std_dev_threshold'', snd c)],
                formData_file = b, filename = ''capture.jpg'', timeout = 5000\<rparr>]\<rparr>)"

definition processedHist :: "real list \<Rightarrow> HistogramData list" where
  "processedHist h = map (\<lambda>(index, v). \<lparr>bin = index, frequency = v\<rparr>) (zip [0..<length h] h)"

text \<open>The rest of the callback: \<open>try\<close> after the \<open>await\<close>, \<open>catch\<close>, \<open>finally\<close>.\<close>

definition captureAndDetect_settled :: "DetectionResponse Outcome \<Rightarrow> HomeState \<Rightarrow> HomeState" where
  "captureAndDetect_settled out s =
     (case out of
        Fulfilled d \<Rightarrow>
          s\<lparr>detectionResult := Some d,
            error := None,
            histogramData :=
              (case histogram d of
                 None \<Rightarrow> []
               | Some h \<Rightarrow> if length h > 0 then processedHist h else []),
            isDetecting := False\<rparr>
      | Rejected err \<Rightarrow>
          s\<lparr>detectionResult := None, histogramData := [], isDetecting := False\<rparr>)"

definition stopDetectionLoop :: "HomeState \<Rightarrow> HomeState" where
  "stopDetectionLoop s =
     (case intervalRef s of
        None \<Rightarrow> s
      | Some t \<Rightarrow> s\<lparr>intervals := filter (\<lambda>e. fst e \<noteq> t) (intervals s), intervalRef := None\<rparr>)"

definition startDetectionLoop :: "Captured \<Rightarrow> CanvasEnv \<Rightarrow> HomeState \<Rightarrow> HomeState" where
  "startDetectionLoop c env s =
     (let s1 = stopDetectionLoop s;
          s2 = captureAndDetect c env s1;
          t = nextTimeout s2
      in s2\<lparr>intervals := intervals s2 @ [(t, DETECTION_INTERVAL_MS, c)],
            nextTimeout := Suc t,
            intervalRef := Some t\<rparr>)"

text \<open>\<open>startCamera\<close> up to the \<open>await\<close> of \<open>getUserMedia\<close>.\<close>

definition startCamera :: "HomeState \<Rightarrow> HomeState" where
  "startCamera s =
     s\<lparr>error := None, isLoading := True, detectionResult := None, histogramData := [],
       getUserMediaPending :=
         getUserMediaPending s @ [(laplacianThreshold s, histStdDevThreshold s)]\<rparr>"

text \<open>\<open>startCamera\<close> after \<open>getUserMedia\<close> returned a stream.\<close>

definition startCamera_stream :: "Captured \<Rightarrow> MediaStream \<Rightarrow> HomeState \<Rightarrow> HomeState" where
  "startCamera_stream c stream s =
     (case videoRef s of
        None \<Rightarrow> s
      | Some v \<Rightarrow>
          s\<lparr>videoRef :=
              Some (play (v\<lparr>srcObject := Some stream, loadedmetadata := loadedmetadata v @ [c]\<rparr>)),
            isCameraOn := True\<rparr>)"

text \<open>The \<open>catch\<close> of \<open>startCamera\<close>: \<open>getUserMedia\<close> was rejected.\<close>

definition startCamera_catch :: "HomeState \<Rightarrow> HomeState" where
  "startCamera_catch s = s\<lparr>isLoading := False, isCameraOn := False\<rparr>"

definition handleMetadataLoaded :: "Captured \<Rightarrow> CanvasEnv \<Rightarrow> HomeState \<Rightarrow> HomeState" where
  "handleMetadataLoaded c env s =
     (let s1 = s\<lparr>isLoading := False\<rparr>;
          s2 = s1\<lparr>videoRef := map_option play (videoRef s1)\<rparr>
      in startDetectionLoop c env s2)"

definition stopCamera :: "HomeState \<Rightarrow> HomeState" where
  "stopCamera s =
     (let s1 = stopDetectionLoop s;
          s2 = (case videoRef s1 of
                  None \<Rightarrow> s1
                | Some v \<Rightarrow>
                   (case srcObject v of
                      None \<Rightarrow> s1
                    | Some stream \<Rightarrow>
                        s1\<lparr>stoppedTracks := stoppedTracks s1 \<union> set stream,
                           videoRef := Some (v\<lparr>srcObject := None\<rparr>)\<rparr>))
      in s2\<lparr>isCameraOn := False, detectionResult := None, histogramData := [],
            isLoading := False, isDetecting := False, error := None\<rparr>)"

text \<open>
  What can happen to a mounted \<open>Home\<close>: \<open>startCamera\<close> (called by the mount effect
  and by the Start button), the Stop button and the sliders, the effect that
  copies \<open>isCameraOn\<close> into its ref after a render, and the browser's callbacks:
  a settled \<open>getUserMedia\<close>, the video's metadata (its size) arriving, the video
  changing its \<open>paused\<close> and \<open>ended\<close> flags, a tick of an active interval,
  \<open>toBlob\<close> delivering its blob or null, and a request settling. A response names
  the request it answers by its position among the unresolved ones. Unmounting is not
  among them: it ends the mounted component and is the event \<open>Unmount\<close> of the life
  cycle defined further down.
\<close>

datatype HomeEvent =
    StartCamera
  | StopCamera
  | SetLaplacianThreshold real
  | SetHistStdDevThreshold real
  | SyncCameraRef
  | GetUserMediaStream MediaStream
  | GetUserMediaError
  | LoadedMetadata nat nat CanvasEnv
  | VideoPlayback bool bool
  | Tick Timeout CanvasEnv
  | ToBlob "Blob option"
  | Settled nat "DetectionResponse Outcome"

fun step :: "HomeState \<Rightarrow> HomeEvent \<Rightarrow> HomeState" where
  "step s StartCamera = startCamera s"
| "step s StopCamera = stopCamera s"
| "step s (SetLaplacianThreshold x) = s\<lparr>laplacianThreshold := x\<rparr>"
| "step s (SetHistStdDevThreshold x) = s\<lparr>histStdDevThreshold := x\<rparr>"
| "step s SyncCameraRef = s\<lparr>isCameraOnRef := isCameraOn s\<rparr>"
| "step s (GetUserMediaStream stream) =
     (case getUserMediaPending s of
        [] \<Rightarrow> s
      | c # cs \<Rightarrow> startCamera_stream c stream (s\<lparr>getUserMediaPending := cs\<rparr>))"
| "step s GetUserMediaError =
     (case getUserMediaPending s of
        [] \<Rightarrow> s
      | c # cs \<Rightarrow> startCamera_catch (s\<lparr>getUserMediaPending := cs\<rparr>))"
| "step s (LoadedMetadata w h env) =
     (case videoRef s of
        None \<Rightarrow> s
      | Some v \<Rightarrow>
          fold (\<lambda>c. handleMetadataLoaded c env) (loadedmetadata v)
            (s\<lparr>videoRef :=
                Some (v\<lparr>videoWidth := w, videoHeight := h, loadedmetadata := []\<rparr>)\<rparr>))"
| "step s (VideoPlayback p e) =
     s\<lparr>videoRef := map_option (\<lambda>v. v\<lparr>paused := p, ended := e\<rparr>) (videoRef s)\<rparr>"
| "step s (Tick t env) =
     (case map_of (intervals s) t of
        None \<Rightarrow> s
      | Some (ms, c) \<Rightarrow> captureAndDetect c env s)"
| "step s (ToBlob blob) =
     (case toBlobQueue s of
        [] \<Rightarrow> s
      | c # cs \<Rightarrow> captureAndDetect_toBlob c blob (s\<lparr>toBlobQueue := cs\<rparr>))"
| "step s (Settled i out) =
     (if i < length (inflight s)
      then captureAndDetect_settled out
             (s\<lparr>inflight := take i (inflight s) @ drop (Suc i) (inflight s)\<rparr>)
      else s)"

definition run :: "HomeState \<Rightarrow> HomeEvent list \<Rightarrow> HomeState" where
  "run s evs = foldl step s evs"

text \<open>A freshly mounted \<open>Home\<close>: the \<open>useState\<close> and \<open>useRef\<close> initial values, the video
  and the canvas of the first render attached to their refs.\<close>

definition mounted :: HomeState where
  "mounted =
     \<lparr>videoRef = Some \<lparr>srcObject = None, paused = True, ended = False,
                       videoWidth = 0, videoHeight = 0, loadedmetadata = []\<rparr>,
      canvasRef = Some \<lparr>width = 300, height = 150\<rparr>,
      intervalRef = None,
      isCameraOn = False,
      isCameraOnRef = False,
      detectionResult = None,
      error = None,
      isLoading = False,
      isDetecting = False,
      histogramData = [],
      laplacianThreshold = DEFAULT_LAPLACIAN_THRESHOLD,
      histStdDevThreshold = DEFAULT_HIST_STD_DEV_THRESHOLD,
      intervals = [],
      nextTimeout = 1,
      stoppedTracks = {},
      toBlobQueue = [],
      inflight = [],
      getUserMediaPending = []\<rparr>"

section \<open>The driver view (\<open>DriverView\<close>)\<close>

text \<open>The second component has its own copy of every function; its names carry the
  suffix \<open>_D\<close> here. Its closures capture no state variable.\<close>

datatype Intensity = Clear | Light | Heavy

record DetectionResponse_D =
  fog_detected_D :: bool
  laplacian_variance_D :: real
  histogram_std_dev_D :: real
  intensity_D :: Intensity
  advice_D :: string
  message_D :: "string option"
  timestamp_D :: "string option"
  histogram_D :: "real list option"
  laplacian_threshold_used_D :: "real option"
  std_dev_threshold_used_D :: "real option"

definition DETECTION_INTERVAL_MS_D :: nat where
  "DETECTION_INTERVAL_MS_D = 1500"

record DriverState =
  videoRef_D :: "unit HTMLVideoElement option"
  canvasRef_D :: "HTMLCanvasElement option"
  intervalRef_D :: "Timeout option"
  isCameraOn_D :: bool
  isCameraOnRef_D :: bool
  detectionResult_D :: "DetectionResponse_D option"
  error_D :: "string option"
  isLoading_D :: bool
  isDetecting_D :: bool
  intervals_D :: "(Timeout \<times> nat) list"
  nextTimeout_D :: Timeout
  stoppedTracks_D :: "MediaStreamTrack set"
  toBlobQueue_D :: nat
  inflight_D :: "Request list"
  getUserMediaPending_D :: nat

definition captureAndDetect_D :: "CanvasEnv \<Rightarrow> DriverState \<Rightarrow> DriverState" where
  "captureAndDetect_D env s =
     (case videoRef_D s of
        None \<Rightarrow> s
      | Some video \<Rightarrow>
         (case canvasRef_D s of
            None \<Rightarrow> s
          | Some canvas \<Rightarrow>
              if \<not> isCameraOnRef_D s \<or> paused video \<or> ended video then s
              else
                let canvas' =
                      (if width canvas \<noteq> videoWidth video \<or> height canvas \<noteq> videoHeight video
                       then canvas\<lparr>width := videoWidth video, height := videoHeight video\<rparr>
                       else canvas);
                    s1 = s\<lparr>canvasRef_D := Some canvas'\<rparr>
                in if \<not> getContext env then s1
                   else if drawImageThrows env then s1
                   else s1\<lparr>toBlobQueue_D := Suc (toBlobQueue_D s1)\<rparr>))"

definition captureAndDetect_toBlob_D :: "Blob option \<Rightarrow> DriverState \<Rightarrow> DriverState" where
  "captureAndDetect_toBlob_D blob s =
     (case blob of
        None \<Rightarrow> s
      | Some b \<Rightarrow>
          s\<lparr>isDetecting_D := True,
            inflight_D := inflight_D s @
              [\<lparr>url = ''/detect-fog'', searchParams = [],
                formData_file = b, filename = ''capture.jpg'', timeout = 5000\<rparr>]\<rparr>)"

text \<open>The decimal text of a status code, for the template string of the server error.\<close>

definition digit :: "nat \<Rightarrow> char" where
  "digit n = ''0123456789'' ! n"

fun toString :: "nat \<Rightarrow> string" where
  "toString n =
     (if n < 10 then [digit n]
      else toString (n div 10) @ [digit (n mod 10)])"

declare toString.simps [simp del]

definition errorMsg :: "AxiosError \<Rightarrow> string" where
  "errorMsg err =
     (if isAxiosError err then
        (if code err = Some ''ECONNABORTED'' then ''Connection timeout.''
         else case response err of
                Some status \<Rightarrow> ''Server error: '' @ toString status
              | None \<Rightarrow> if request err then ''No server response.'' else ''System error.'')
      else ''System error.'')"

definition captureAndDetect_settled_D :: "DetectionResponse_D Outcome \<Rightarrow> DriverState \<Rightarrow> DriverState" where
  "captureAndDetect_settled_D out s =
     (case out of
        Fulfilled d \<Rightarrow> s\<lparr>detectionResult_D := Some d, error_D := None, isDetecting_D := False\<rparr>
      | Rejected err \<Rightarrow>
          s\<lparr>error_D := (if error_D s = Some (errorMsg err) then error_D s else Some (errorMsg err)),
            detectionResult_D := None,
            isDetecting_D := False\<rparr>)"

definition stopDetectionLoop_D :: "DriverState \<Rightarrow> DriverState" where
  "stopDetectionLoop_D s =
     (case intervalRef_D s of
        None \<Rightarrow> s
      | Some t \<Rightarrow>
          s\<lparr>intervals_D := filter (\<lambda>e. fst e \<noteq> t) (intervals_D s), intervalRef_D := None\<rparr>)"

definition startDetectionLoop_D :: "CanvasEnv \<Rightarrow> DriverState \<Rightarrow> DriverState" where
  "startDetectionLoop_D env s =
     (let s1 = stopDetectionLoop_D s;
          s2 = captureAndDetect_D env s1;
          t = nextTimeout_D s2
      in s2\<lparr>intervals_D := intervals_D s2 @ [(t, DETECTION_INTERVAL_MS_D)],
            nextTimeout_D := Suc t,
            intervalRef_D := Some t\<rparr>)"

definition startCamera_D :: "DriverState \<Rightarrow> DriverState" where
  "startCamera_D s =
     s\<lparr>error_D := None, isLoading_D := True, detectionResult_D := None,
       getUserMediaPending_D := Suc (getUserMediaPending_D s)\<rparr>"

definition startCamera_stream_D :: "MediaStream \<Rightarrow> DriverState \<Rightarrow> DriverState" where
  "startCamera_stream_D stream s =
     (case videoRef_D s of
        None \<Rightarrow> s
      | Some v \<Rightarrow>
          s\<lparr>videoRef_D :=
              Some (play (v\<lparr>srcObject := Some stream, loadedmetadata := loadedmetadata v @ [()]\<rparr>)),
            isCameraOn_D := True\<rparr>)"

definition startCamera_catch_D :: "DriverState \<Rightarrow> DriverState" where
  "startCamera_catch_D s =
     s\<lparr>error_D := Some ''Camera unavailable. Check permissions.'',
       isLoading_D := False, isCameraOn_D := False\<rparr>"

definition handleMetadataLoaded_D :: "CanvasEnv \<Rightarrow> DriverState \<Rightarrow> DriverState" where
  "handleMetadataLoaded_D env s =
     (let s1 = s\<lparr>isLoading_D := False\<rparr>;
          s2 = s1\<lparr>videoRef_D := map_option play (videoRef_D s1)\<rparr>
      in startDetectionLoop_D env s2)"

definition stopCamera_D :: "DriverState \<Rightarrow> DriverState" where
  "stopCamera_D s =
     (let s1 = stopDetectionLoop_D s;
          s2 = (case videoRef_D s1 of
                  None \<Rightarrow> s1
                | Some v \<Rightarrow>
                   (case srcObject v of
                      None \<Rightarrow> s1
                    | Some stream \<Rightarrow>
                        s1\<lparr>stoppedTracks_D := stoppedTracks_D s1 \<union> set stream,
                           videoRef_D := Some (v\<lparr>srcObject := None\<rparr>)\<rparr>))
      in s2\<lparr>isCameraOn_D := False, detectionResult_D := None, isLoading_D := False,
            isDetecting_D := False, error_D := None\<rparr>)"

text \<open>
  What can happen to a mounted \<open>DriverView\<close>. The view renders no button: its only
  call of \<open>startCamera\<close> is the mount effect, which is part of the state \<open>mounted_D\<close>
  below, and its only call of \<open>stopCamera\<close> is the cleanup of that effect, the event
  \<open>Unmount\<close> of the life cycle defined further down. What is left are the effect that
  copies \<open>isCameraOn\<close> into its ref after a render and the browser's callbacks.
\<close>

datatype DriverEvent =
    SyncCameraRef_D
  | GetUserMediaStream_D MediaStream
  | GetUserMediaError_D
  | LoadedMetadata_D nat nat CanvasEnv
  | VideoPlayback_D bool bool
  | Tick_D Timeout CanvasEnv
  | ToBlob_D "Blob option"
  | Settled_D nat "DetectionResponse_D Outcome"

fun step_D :: "DriverState \<Rightarrow> DriverEvent \<Rightarrow> DriverState" where
  "step_D s SyncCameraRef_D = s\<lparr>isCameraOnRef_D := isCameraOn_D s\<rparr>"
| "step_D s (GetUserMediaStream_D stream) =
     (case getUserMediaPending_D s of
        0 \<Rightarrow> s
      | Suc n \<Rightarrow> startCamera_stream_D stream (s\<lparr>getUserMediaPending_D := n\<rparr>))"
| "step_D s GetUserMediaError_D =
     (case getUserMediaPending_D s of
        0 \<Rightarrow> s
      | Suc n \<Rightarrow> startCamera_catch_D (s\<lparr>getUserMediaPending_D := n\<rparr>))"
| "step_D s (LoadedMetadata_D w h env) =
     (case videoRef_D s of
        None \<Rightarrow> s
      | Some v \<Rightarrow>
          fold (\<lambda>c. handleMetadataLoaded_D env) (loadedmetadata v)
            (s\<lparr>videoRef_D :=
                Some (v\<lparr>videoWidth := w, videoHeight := h, loadedmetadata := []\<rparr>)\<rparr>))"
| "step_D s (VideoPlayback_D p e) =
     s\<lparr>videoRef_D := map_option (\<lambda>v. v\<lparr>paused := p, ended := e\<rparr>) (videoRef_D s)\<rparr>"
| "step_D s (Tick_D t env) =
     (case map_of (intervals_D s) t of
        None \<Rightarrow> s
      | Some ms \<Rightarrow> captureAndDetect_D env s)"
| "step_D s (ToBlob_D blob) =
     (case toBlobQueue_D s of
        0 \<Rightarrow> s
      | Suc n \<Rightarrow> captureAndDetect_toBlob_D blob (s\<lparr>toBlobQueue_D := n\<rparr>))"
| "step_D s (Settled_D i out) =
     (if i < length (inflight_D s)
      then captureAndDetect_settled_D out
             (s\<lparr>inflight_D := take i (inflight_D s) @ drop (Suc i) (inflight_D s)\<rparr>)
      else s)"

definition run_D :: "DriverState \<Rightarrow> DriverEvent list \<Rightarrow> DriverState" where
  "run_D s evs = foldl step_D s evs"

text \<open>The first render of a \<open>DriverView\<close>: the \<open>useState\<close> and \<open>useRef\<close> initial
  values, the video and the canvas attached to their refs.\<close>

definition rendered_D :: DriverState where
  "rendered_D =
     \<lparr>videoRef_D = Some \<lparr>srcObject = None, paused = True, ended = False,
                         videoWidth = 0, videoHeight = 0, loadedmetadata = []\<rparr>,
      canvasRef_D = Some \<lparr>width = 300, height = 150\<rparr>,
      intervalRef_D = None,
      isCameraOn_D = False,
      isCameraOnRef_D = False,
      detectionResult_D = None,
      error_D = None,
      isLoading_D = False,
      isDetecting_D = False,
      intervals_D = [],
      nextTimeout_D = 1,
      stoppedTracks_D = {},
      toBlobQueue_D = 0,
      inflight_D = [],
      getUserMediaPending_D = 0\<rparr>"

text \<open>A mounted \<open>DriverView\<close>: after the first render the mount effect has called
  \<open>startCamera\<close>, once for the life of the component.\<close>

definition mounted_D :: DriverState where
  "mounted_D = startCamera_D rendered_D"

section \<open>Mounting and unmounting\<close>

text \<open>
  Each view's mount effect calls \<open>startCamera\<close> and returns \<open>stopCamera\<close> as its cleanup
  (\<open>Home\<close>: \<open>useEffect(() => { startCamera(); return () => { stopCamera(); }; }, [])\<close>,
  \<open>DriverView\<close>: \<open>useEffect(() => { startCamera(); return stopCamera; }, [])\<close>). When
  a component unmounts, React first detaches the refs of its elements, so that
  \<open>videoRef.current\<close> and \<open>canvasRef.current\<close> are null, and then runs the cleanup;
  \<open>intervalRef\<close> holds a plain value and keeps it. A state setter called for an
  unmounted component has no effect. So of what the cleanup and every later callback do,
  the effects on refs and on the browser remain and the state variables keep their
  values. The detached video element, with the stream and the listeners it still holds,
  is out of the component's reach from then on.
\<close>

datatype 's Component = Mounted 's | Unmounted 's

datatype 'e Lifecycle = Deliver 'e | Unmount

fun theState :: "'s Component \<Rightarrow> 's" where
  "theState (Mounted s) = s"
| "theState (Unmounted s) = s"

text \<open>The state \<open>s'\<close> a handler computed from \<open>s\<close>, with its calls of state setters undone.\<close>

definition settersDropped :: "HomeState \<Rightarrow> HomeState \<Rightarrow> HomeState" where
  "settersDropped s s' =
     s'\<lparr>isCameraOn := isCameraOn s, detectionResult := detectionResult s, error := error s,
        isLoading := isLoading s, isDetecting := isDetecting s,
        histogramData := histogramData s\<rparr>"

definition settersDropped_D :: "DriverState \<Rightarrow> DriverState \<Rightarrow> DriverState" where
  "settersDropped_D s s' =
     s'\<lparr>isCameraOn_D := isCameraOn_D s, detectionResult_D := detectionResult_D s,
        error_D := error_D s, isLoading_D := isLoading_D s, isDetecting_D := isDetecting_D s\<rparr>"

text \<open>Unmounting: the element refs are null when the cleanup \<open>stopCamera\<close> runs.\<close>

definition unmount :: "HomeState \<Rightarrow> HomeState" where
  "unmount s = settersDropped s (stopCamera (s\<lparr>videoRef := None, canvasRef := None\<rparr>))"

definition unmount_D :: "DriverState \<Rightarrow> DriverState" where
  "unmount_D s =
     settersDropped_D s (stopCamera_D (s\<lparr>videoRef_D := None, canvasRef_D := None\<rparr>))"

text \<open>Events that reach a mounted component only: the buttons, the sliders and the effect
  that follows a render. The browser's callbacks run whether it is mounted or not.\<close>

fun needsMounted :: "HomeEvent \<Rightarrow> bool" where
  "needsMounted StartCamera = True"
| "needsMounted StopCamera = True"
| "needsMounted (SetLaplacianThreshold x) = True"
| "needsMounted (SetHistStdDevThreshold x) = True"
| "needsMounted SyncCameraRef = True"
| "needsMounted ev = False"

fun needsMounted_D :: "DriverEvent \<Rightarrow> bool" where
  "needsMounted_D SyncCameraRef_D = True"
| "needsMounted_D ev = False"

fun life :: "HomeState Component \<Rightarrow> HomeEvent Lifecycle \<Rightarrow> HomeState Component" where
  "life (Mounted s) (Deliver ev) = Mounted (step s ev)"
| "life (Mounted s) Unmount = Unmounted (unmount s)"
| "life (Unmounted s) (Deliver ev) =
     Unmounted (if needsMounted ev then s else settersDropped s (step s ev))"
| "life (Unmounted s) Unmount = Unmounted s"

fun life_D :: "DriverState Component \<Rightarrow> DriverEvent Lifecycle \<Rightarrow> DriverState Component" where
  "life_D (Mounted s) (Deliver ev) = Mounted (step_D s ev)"
| "life_D (Mounted s) Unmount = Unmounted (unmount_D s)"
| "life_D (Unmounted s) (Deliver ev) =
     Unmounted (if needsMounted_D ev then s else settersDropped_D s (step_D s ev))"
| "life_D (Unmounted s) Unmount = Unmounted s"

definition lifetime :: "HomeState Component \<Rightarrow> HomeEvent Lifecycle list \<Rightarrow> HomeState Component" where
  "lifetime c evs = foldl life c evs"

definition lifetime_D ::
  "DriverState Component \<Rightarrow> DriverEvent Lifecycle list \<Rightarrow> DriverState Component" where
  "lifetime_D c evs = foldl life_D c evs"

text \<open>What a view shows: the state variables its render reads.\<close>

definition published ::
  "HomeState \<Rightarrow> DetectionResponse option \<times> string option \<times> HistogramData list \<times> bool \<times> bool \<times> bool" where
  "published s =
     (detectionResult s, error s, histogramData s, isCameraOn s, isLoading s, isDetecting s)"

definition published_D ::
  "DriverState \<Rightarrow> DetectionResponse_D option \<times> string option \<times> bool \<times> bool \<times> bool" where
  "published_D s = (detectionResult_D s, error_D s, isCameraOn_D s, isLoading_D s, isDetecting_D s)"

section \<open>The detection service\<close>

text \<open>
  Modelled from the spec: the detection service (\<open>backend/main.py\<close>, the operation
  \<open>detect\<close> of section 4.4) is not among the sources; only the response types of the two
  views are. The records are the spec's \<open>DetectionMetrics\<close>, \<open>ThresholdConfig\<close> and
  \<open>DetectionResult\<close> (section 3), without the histogram and the timestamp.
\<close>

record DetectionMetrics =
  laplacianVariance :: real
  histogramStdDev :: real

record ThresholdConfig =
  laplacianThreshold_cfg :: real
  stdDevThreshold_cfg :: real

record DetectionResult =
  fogDetected :: bool
  intensity :: Intensity
  advice :: string
  metrics :: DetectionMetrics
  thresholdsUsed :: ThresholdConfig

text \<open>Modelled from the spec: the fractional shortfall below threshold of step 4,
  \<open>1 - min(laplacianVariance/laplacianThreshold, histogramStdDev/stdDevThreshold)\<close>.\<close>

definition shortfall :: "DetectionMetrics \<Rightarrow> ThresholdConfig \<Rightarrow> real" where
  "shortfall m t =
     1 - min (laplacianVariance m / laplacianThreshold_cfg t)
             (histogramStdDev m / stdDevThreshold_cfg t)"

text \<open>Modelled from the spec: the tiers of step 4, \<open>shortfall < 0\<close> Clear,
  \<open>0 \<le> shortfall < 0.5\<close> Light, \<open>shortfall \<ge> 0.5\<close> Heavy.\<close>

definition tier :: "real \<Rightarrow> Intensity" where
  "tier x = (if x < 0 then Clear else if x < 1 / 2 then Light else Heavy)"

text \<open>Modelled from the spec: the advice strings of step 5.\<close>

fun adviceFor :: "Intensity \<Rightarrow> string" where
  "adviceFor Clear = ''Conditions clear''"
| "adviceFor Light = ''Reduce speed, use fog lights''"
| "adviceFor Heavy = ''Pull over safely if visibility is critical''"

text \<open>
  Modelled from the spec: \<open>detect(pixelBuffer, laplacianThreshold, stdDevThreshold)\<close>,
  steps 4 and 5 of section 4.4. Steps 1 to 3 (grayscale conversion, Laplacian variance,
  histogram standard deviation) reach it as the parameter \<open>analyse\<close>, from a pixel
  buffer to its two metrics: the spec fixes neither the kernel nor the treatment of the
  image border. Fog is detected when both metrics are below their thresholds.
\<close>

definition detect :: "('buf \<Rightarrow> DetectionMetrics) \<Rightarrow> 'buf \<Rightarrow> real \<Rightarrow> real \<Rightarrow> DetectionResult" where
  "detect analyse pixelBuffer laplacianThreshold' stdDevThreshold' =
     (let m = analyse pixelBuffer;
          t = \<lparr>laplacianThreshold_cfg = laplacianThreshold', stdDevThreshold_cfg = stdDevThreshold'\<rparr>;
          i = tier (shortfall m t)
      in \<lparr>fogDetected =
            (laplacianVariance m < laplacianThreshold' \<and> histogramStdDev m < stdDevThreshold'),
          intensity = i,
          advice = adviceFor i,
          metrics = m,
          thresholdsUsed = t\<rparr>)"

section \<open>Sample sessions\<close>

text \<open>Concrete inputs for the evaluations below: a canvas that rasterizes, a camera
  stream of one track, a 640 by 480 video, JPEG blobs, responses and errors.\<close>

definition canvasOk :: CanvasEnv where
  "canvasOk = \<lparr>getContext = True, drawImageThrows = False\<rparr>"

definition jpeg1 :: Blob where
  "jpeg1 = [255, 216, 255, 1]"

definition jpeg2 :: Blob where
  "jpeg2 = [255, 216, 255, 2]"

definition foggy :: DetectionResponse where
  "foggy =
     \<lparr>fog_detected = True, laplacian_variance = 12, histogram_std_dev = 9,
      message = Some ''Fog Detected'', timestamp = Some ''2025-01-01T00:00:00'',
      histogram = Some [3, 5], laplacian_threshold_used = Some 250,
      std_dev_threshold_used = Some 40\<rparr>"

definition foggy_D :: DetectionResponse_D where
  "foggy_D =
     \<lparr>fog_detected_D = True, laplacian_variance_D = 12, histogram_std_dev_D = 9,
      intensity_D = Heavy, advice_D = ''Pull over safely if visibility is critical'',
      message_D = None, timestamp_D = Some ''2025-01-01T00:00:00'',
      histogram_D = None, laplacian_threshold_used_D = Some 250,
      std_dev_threshold_used_D = Some 40\<rparr>"

definition timedOut :: AxiosError where
  "timedOut = \<lparr>isAxiosError = True, code = Some ''ECONNABORTED'', response = None, request = True\<rparr>"

definition serverError :: AxiosError where
  "serverError = \<lparr>isAxiosError = True, code = Some ''ERR_BAD_RESPONSE'', response = Some 500, request = True\<rparr>"

text \<open>A session of \<open>Home\<close> up to its first submission: start, the stream arrives, the
  render copies the camera flag into its ref, the metadata arrives (immediate cycle),
  the encoder delivers the blob. The same for a mounted \<open>DriverView\<close>, whose start is
  part of \<open>mounted_D\<close>.\<close>

definition firstSubmission :: "HomeEvent list" where
  "firstSubmission =
     [StartCamera, GetUserMediaStream [0], SyncCameraRef, LoadedMetadata 640 480 canvasOk,
      ToBlob (Some jpeg1)]"

definition firstSubmission_D :: "DriverEvent list" where
  "firstSubmission_D =
     [GetUserMediaStream_D [0], SyncCameraRef_D, LoadedMetadata_D 640 480 canvasOk,
      ToBlob_D (Some jpeg1)]"

section \<open>Predicates on sessions\<close>

text \<open>The guard at the head of \<open>captureAndDetect\<close> lets the cycle through.\<close>

definition capturing :: "HomeState \<Rightarrow> bool" where
  "capturing s =
     (case videoRef s of
        None \<Rightarrow> False
      | Some video \<Rightarrow> canvasRef s \<noteq> None \<and> isCameraOnRef s \<and> \<not> paused video \<and> \<not> ended video)"

definition capturing_D :: "DriverState \<Rightarrow> bool" where
  "capturing_D s =
     (case videoRef_D s of
        None \<Rightarrow> False
      | Some video \<Rightarrow> canvasRef_D s \<noteq> None \<and> isCameraOnRef_D s \<and> \<not> paused video \<and> \<not> ended video)"

text \<open>\<open>n\<close> ticks of the interval \<open>t\<close>, each followed by the encoder delivering a blob,
  with no response in between.\<close>

definition ticksUnanswered :: "Timeout \<Rightarrow> CanvasEnv \<Rightarrow> Blob \<Rightarrow> nat \<Rightarrow> HomeEvent list" where
  "ticksUnanswered t env blob n = concat (replicate n [Tick t env, ToBlob (Some blob)])"

definition ticksUnanswered_D :: "Timeout \<Rightarrow> CanvasEnv \<Rightarrow> Blob \<Rightarrow> nat \<Rightarrow> DriverEvent list" where
  "ticksUnanswered_D t env blob n = concat (replicate n [Tick_D t env, ToBlob_D (Some blob)])"

text \<open>The tracks of the stream attached to the video element, if any.\<close>

definition attachedTracks :: "'c HTMLVideoElement option \<Rightarrow> MediaStreamTrack set" where
  "attachedTracks ref =
     (case ref of
        None \<Rightarrow> {}
      | Some v \<Rightarrow> (case srcObject v of None \<Rightarrow> {} | Some stream \<Rightarrow> set stream))"

text \<open>Every active interval is the one \<open>intervalRef\<close> holds.\<close>

definition timerOwned :: "HomeState \<Rightarrow> bool" where
  "timerOwned s = (\<forall>e \<in> set (intervals s). intervalRef s = Some (fst e))"

definition timerOwned_D :: "DriverState \<Rightarrow> bool" where
  "timerOwned_D s = (\<forall>e \<in> set (intervals_D s). intervalRef_D s = Some (fst e))"

text \<open>The user moves a slider of \<open>Home\<close>.\<close>

fun adjusts :: "HomeEvent \<Rightarrow> bool" where
  "adjusts (SetLaplacianThreshold x) = True"
| "adjusts (SetHistStdDevThreshold x) = True"
| "adjusts ev = False"

definition defaults :: Captured where
  "defaults = (DEFAULT_LAPLACIAN_THRESHOLD, DEFAULT_HIST_STD_DEV_THRESHOLD)"

definition defaultParams :: "(string \<times> real) list" where
  "defaultParams =
     [(''laplacian_threshold'', DEFAULT_LAPLACIAN_THRESHOLD),
      (''std_dev_threshold'', DEFAULT_HIST_STD_DEV_THRESHOLD)]"

text \<open>The thresholds, every value a pending callback captured and the parameters of
  every unresolved request are the defaults.\<close>

definition defaultsOnly :: "HomeState \<Rightarrow> bool" where
  "defaultsOnly s \<longleftrightarrow>
     (laplacianThreshold s, histStdDevThreshold s) = defaults \<and>
     (\<forall>c \<in> set (getUserMediaPending s). c = defaults) \<and>
     (\<forall>c \<in> set (toBlobQueue s). c = defaults) \<and>
     (\<forall>e \<in> set (intervals s). snd (snd e) = defaults) \<and>
     (\<forall>v. videoRef s = Some v \<longrightarrow> (\<forall>c \<in> set (loadedmetadata v). c = defaults)) \<and>
     (\<forall>r \<in> set (inflight s). searchParams r = defaultParams)"

text \<open>The event calls \<open>captureAndDetect\<close>: a tick of the interval, or the metadata
  arriving (the immediate cycle of \<open>startDetectionLoop\<close>).\<close>

fun captures :: "HomeEvent \<Rightarrow> bool" where
  "captures (Tick t env) = True"
| "captures (LoadedMetadata w h env) = True"
| "captures ev = False"

fun captures_D :: "DriverEvent \<Rightarrow> bool" where
  "captures_D (Tick_D t env) = True"
| "captures_D (LoadedMetadata_D w h env) = True"
| "captures_D ev = False"

text \<open>No frame is being encoded, no request is unresolved and no result is published.\<close>

definition calm :: "HomeState \<Rightarrow> bool" where
  "calm s \<longleftrightarrow>
     toBlobQueue s = [] \<and> inflight s = [] \<and> detectionResult s = None \<and> histogramData s = []"

definition calm_D :: "DriverState \<Rightarrow> bool" where
  "calm_D s \<longleftrightarrow> toBlobQueue_D s = 0 \<and> inflight_D s = [] \<and> detectionResult_D s = None"

section \<open>What the handlers of \<open>Home\<close> leave alone\<close>

lemma captureAndDetect_frame [simp]:
  "intervals (captureAndDetect c env s) = intervals s"
  "intervalRef (captureAndDetect c env s) = intervalRef s"
  "inflight (captureAndDetect c env s) = inflight s"
  "detectionResult (captureAndDetect c env s) = detectionResult s"
  "histogramData (captureAndDetect c env s) = histogramData s"
  "error (captureAndDetect c env s) = error s"
  by (simp_all add: captureAndDetect_def Let_def split: option.splits)

lemma stopDetectionLoop_frame [simp]:
  "inflight (stopDetectionLoop s) = inflight s"
  "detectionResult (stopDetectionLoop s) = detectionResult s"
  "histogramData (stopDetectionLoop s) = histogramData s"
  "error (stopDetectionLoop s) = error s"
  "videoRef (stopDetectionLoop s) = videoRef s"
  "stoppedTracks (stopDetectionLoop s) = stoppedTracks s"
  "intervalRef (stopDetectionLoop s) = None"
  by (simp_all add: stopDetectionLoop_def split: option.splits)

lemma stopDetectionLoop_intervals:
  "intervals (stopDetectionLoop s) = filter (\<lambda>e. Some (fst e) \<noteq> intervalRef s) (intervals s)"
  by (simp add: stopDetectionLoop_def split: option.splits)

lemma startDetectionLoop_frame [simp]:
  "inflight (startDetectionLoop c env s) = inflight s"
  "detectionResult (startDetectionLoop c env s) = detectionResult s"
  "histogramData (startDetectionLoop c env s) = histogramData s"
  "error (startDetectionLoop c env s) = error s"
  by (simp_all add: startDetectionLoop_def Let_def)

lemma handleMetadataLoaded_frame [simp]:
  "inflight (handleMetadataLoaded c env s) = inflight s"
  "detectionResult (handleMetadataLoaded c env s) = detectionResult s"
  "histogramData (handleMetadataLoaded c env s) = histogramData s"
  "error (handleMetadataLoaded c env s) = error s"
  by (simp_all add: handleMetadataLoaded_def Let_def)

lemma fold_handleMetadataLoaded_frame [simp]:
  "inflight (fold (\<lambda>c. handleMetadataLoaded c env) cs s) = inflight s"
  "detectionResult (fold (\<lambda>c. handleMetadataLoaded c env) cs s) = detectionResult s"
  "histogramData (fold (\<lambda>c. handleMetadataLoaded c env) cs s) = histogramData s"
  "error (fold (\<lambda>c. handleMetadataLoaded c env) cs s) = error s"
  by (induction cs arbitrary: s) simp_all

lemma stopCamera_inflight [simp]: "inflight (stopCamera s) = inflight s"
  by (simp add: stopCamera_def Let_def split: option.splits)

lemma run_snoc: "run s (evs @ [ev]) = step (run s evs) ev"
  by (simp add: run_def)

subsection \<open>Every active interval is the one the ref holds\<close>

lemma stopDetectionLoop_owned:
  "timerOwned s \<Longrightarrow> intervals (stopDetectionLoop s) = []"
proof (cases "intervalRef s")
  case None
  assume "timerOwned s"
  with None have "intervals s = []"
    by (cases "intervals s") (auto simp add: timerOwned_def)
  with None show ?thesis by (simp add: stopDetectionLoop_def)
next
  case (Some t)
  assume "timerOwned s"
  with Some have "filter (\<lambda>e. fst e \<noteq> t) (intervals s) = []"
    by (auto simp add: timerOwned_def filter_empty_conv)
  with Some show ?thesis by (simp add: stopDetectionLoop_def)
qed

lemma startDetectionLoop_owned:
  "timerOwned s \<Longrightarrow> timerOwned (startDetectionLoop c env s)"
  using stopDetectionLoop_owned [of s]
  by (simp add: timerOwned_def startDetectionLoop_def Let_def)

lemma handleMetadataLoaded_owned:
  "timerOwned s \<Longrightarrow> timerOwned (handleMetadataLoaded c env s)"
proof -
  assume "timerOwned s"
  then have "timerOwned (s\<lparr>isLoading := False, videoRef := map_option play (videoRef s)\<rparr>)"
    by (simp add: timerOwned_def)
  then show ?thesis
    by (simp add: handleMetadataLoaded_def Let_def startDetectionLoop_owned)
qed

lemma fold_handleMetadataLoaded_owned:
  "timerOwned s \<Longrightarrow> timerOwned (fold (\<lambda>c. handleMetadataLoaded c env) cs s)"
  by (induction cs arbitrary: s) (simp_all add: handleMetadataLoaded_owned)

lemma stopCamera_owned: "timerOwned s \<Longrightarrow> intervals (stopCamera s) = []"
  using stopDetectionLoop_owned [of s]
  by (simp add: stopCamera_def Let_def split: option.splits)

lemma stopCamera_intervalRef [simp]: "intervalRef (stopCamera s) = None"
  by (simp add: stopCamera_def Let_def split: option.splits)

lemma step_owned: "timerOwned s \<Longrightarrow> timerOwned (step s ev)"
proof (cases ev)
  case StopCamera
  assume "timerOwned s"
  with StopCamera show ?thesis using stopCamera_owned [of s] by (simp add: timerOwned_def)
next
  case (LoadedMetadata w h env)
  assume o: "timerOwned s"
  show ?thesis
  proof (cases "videoRef s")
    case None
    with o LoadedMetadata show ?thesis by simp
  next
    case (Some v)
    from o have "timerOwned
        (s\<lparr>videoRef := Some (v\<lparr>videoWidth := w, videoHeight := h, loadedmetadata := []\<rparr>)\<rparr>)"
      by (simp add: timerOwned_def)
    with Some LoadedMetadata show ?thesis by (simp add: fold_handleMetadataLoaded_owned)
  qed
qed (simp_all add: timerOwned_def startCamera_def startCamera_stream_def startCamera_catch_def
       captureAndDetect_toBlob_def captureAndDetect_settled_def
       split: option.splits list.splits prod.splits Outcome.splits)

lemma run_owned: "timerOwned s \<Longrightarrow> timerOwned (run s evs)"
  unfolding run_def by (induction evs arbitrary: s) (simp_all add: step_owned)

lemma mounted_owned: "timerOwned mounted"
  by (simp add: timerOwned_def mounted_def)

subsection \<open>Only the default thresholds travel while no slider moves\<close>

lemma captureAndDetect_defaults:
  "defaultsOnly s \<Longrightarrow> defaultsOnly (captureAndDetect defaults env s)"
  by (simp add: defaultsOnly_def captureAndDetect_def Let_def split: option.splits)

lemma stopDetectionLoop_defaults:
  "defaultsOnly s \<Longrightarrow> defaultsOnly (stopDetectionLoop s)"
  by (simp add: defaultsOnly_def stopDetectionLoop_def split: option.splits)

lemma startDetectionLoop_defaults:
  "defaultsOnly s \<Longrightarrow> defaultsOnly (startDetectionLoop defaults env s)"
proof -
  assume "defaultsOnly s"
  then have "defaultsOnly (captureAndDetect defaults env (stopDetectionLoop s))"
    by (simp add: captureAndDetect_defaults stopDetectionLoop_defaults)
  then show ?thesis
    by (simp add: startDetectionLoop_def Let_def defaultsOnly_def)
qed

lemma handleMetadataLoaded_defaults:
  "defaultsOnly s \<Longrightarrow> defaultsOnly (handleMetadataLoaded defaults env s)"
proof -
  assume "defaultsOnly s"
  then have "defaultsOnly (s\<lparr>isLoading := False, videoRef := map_option play (videoRef s)\<rparr>)"
    by (auto simp add: defaultsOnly_def play_def)
  then show ?thesis
    by (simp add: handleMetadataLoaded_def Let_def startDetectionLoop_defaults)
qed

lemma fold_handleMetadataLoaded_defaults:
  "defaultsOnly s \<Longrightarrow> \<forall>c \<in> set cs. c = defaults \<Longrightarrow>
     defaultsOnly (fold (\<lambda>c. handleMetadataLoaded c env) cs s)"
  by (induction cs arbitrary: s) (simp_all add: handleMetadataLoaded_defaults)

lemma stopCamera_defaults: "defaultsOnly s \<Longrightarrow> defaultsOnly (stopCamera s)"
proof -
  assume "defaultsOnly s"
  then have "defaultsOnly (stopDetectionLoop s)" by (rule stopDetectionLoop_defaults)
  then show ?thesis
    by (auto simp add: stopCamera_def Let_def defaultsOnly_def split: option.splits)
qed

lemma step_defaults: "defaultsOnly s \<Longrightarrow> \<not> adjusts ev \<Longrightarrow> defaultsOnly (step s ev)"
proof (cases ev)
  case StartCamera
  assume "defaultsOnly s"
  with StartCamera show ?thesis by (simp add: defaultsOnly_def startCamera_def)
next
  case StopCamera
  assume "defaultsOnly s"
  with StopCamera show ?thesis by (simp add: stopCamera_defaults)
next
  case SyncCameraRef
  assume "defaultsOnly s"
  with SyncCameraRef show ?thesis by (simp add: defaultsOnly_def)
next
  case (GetUserMediaStream stream)
  assume "defaultsOnly s"
  with GetUserMediaStream show ?thesis
    by (auto simp add: defaultsOnly_def startCamera_stream_def play_def
        split: list.splits option.splits)
next
  case GetUserMediaError
  assume "defaultsOnly s"
  with GetUserMediaError show ?thesis
    by (auto simp add: defaultsOnly_def startCamera_catch_def split: list.splits)
next
  case (LoadedMetadata w h env)
  assume d: "defaultsOnly s"
  show ?thesis
  proof (cases "videoRef s")
    case None
    with d LoadedMetadata show ?thesis by simp
  next
    case (Some v)
    from d Some have l: "\<forall>c \<in> set (loadedmetadata v). c = defaults"
      by (simp add: defaultsOnly_def)
    from d have "defaultsOnly
        (s\<lparr>videoRef := Some (v\<lparr>videoWidth := w, videoHeight := h, loadedmetadata := []\<rparr>)\<rparr>)"
      by (simp add: defaultsOnly_def)
    with Some LoadedMetadata l show ?thesis by (simp add: fold_handleMetadataLoaded_defaults)
  qed
next
  case (VideoPlayback p e)
  assume "defaultsOnly s"
  with VideoPlayback show ?thesis by (auto simp add: defaultsOnly_def)
next
  case (Tick t env)
  assume d: "defaultsOnly s"
  show ?thesis
  proof (cases "map_of (intervals s) t")
    case None
    with d Tick show ?thesis by simp
  next
    case (Some e)
    then have "(t, e) \<in> set (intervals s)" by (rule map_of_SomeD)
    with d have "snd e = defaults" by (auto simp add: defaultsOnly_def)
    with d Some Tick show ?thesis by (cases e) (simp add: captureAndDetect_defaults)
  qed
next
  case (ToBlob blob)
  assume "defaultsOnly s"
  with ToBlob show ?thesis
    by (auto simp add: defaultsOnly_def captureAndDetect_toBlob_def defaultParams_def defaults_def
        split: list.splits option.splits)
next
  case (Settled i out)
  assume "defaultsOnly s"
  with Settled show ?thesis
    by (auto simp add: defaultsOnly_def captureAndDetect_settled_def
        dest: in_set_takeD in_set_dropD split: Outcome.splits)
qed simp_all

lemma run_defaults:
  "defaultsOnly s \<Longrightarrow> \<forall>ev \<in> set evs. \<not> adjusts ev \<Longrightarrow> defaultsOnly (run s evs)"
  unfolding run_def by (induction evs arbitrary: s) (simp_all add: step_defaults)

lemma mounted_defaults: "defaultsOnly mounted"
  by (simp add: defaultsOnly_def mounted_def defaults_def)

subsection \<open>Every request carries a blob the encoder delivered\<close>

lemma step_inflight:
  "r \<in> set (inflight (step s ev)) \<Longrightarrow>
     r \<in> set (inflight s) \<or>
     (ev = ToBlob (Some (formData_file r)) \<and>
      map fst (searchParams r) = [''laplacian_threshold'', ''std_dev_threshold''])"
proof (cases ev)
  case (ToBlob blob)
  assume "r \<in> set (inflight (step s ev))"
  with ToBlob show ?thesis
    by (auto simp add: captureAndDetect_toBlob_def split: list.splits option.splits)
next
  case (Settled i out)
  assume "r \<in> set (inflight (step s ev))"
  with Settled show ?thesis
    by (auto simp add: captureAndDetect_settled_def
        dest: in_set_takeD in_set_dropD split: Outcome.splits if_splits)
qed (auto simp add: startCamera_def startCamera_stream_def startCamera_catch_def
       split: option.splits list.splits prod.splits)

lemma run_inflight:
  "\<forall>r \<in> set (inflight (run mounted evs)).
     ToBlob (Some (formData_file r)) \<in> set evs \<and>
     map fst (searchParams r) = [''laplacian_threshold'', ''std_dev_threshold'']"
proof (induction evs rule: rev_induct)
  case Nil
  show ?case by (simp add: run_def mounted_def)
next
  case (snoc ev evs)
  show ?case
  proof
    fix r
    assume "r \<in> set (inflight (run mounted (evs @ [ev])))"
    then have "r \<in> set (inflight (run mounted evs)) \<or>
        (ev = ToBlob (Some (formData_file r)) \<and>
         map fst (searchParams r) = [''laplacian_threshold'', ''std_dev_threshold''])"
      by (simp add: run_snoc step_inflight)
    with snoc show "ToBlob (Some (formData_file r)) \<in> set (evs @ [ev]) \<and>
        map fst (searchParams r) = [''laplacian_threshold'', ''std_dev_threshold'']"
      by auto
  qed
qed

subsection \<open>No result without a capture\<close>

lemma step_calm: "calm s \<Longrightarrow> \<not> captures ev \<Longrightarrow> calm (step s ev)"
  by (cases ev)
     (simp_all add: calm_def startCamera_def startCamera_stream_def startCamera_catch_def
        stopCamera_def stopDetectionLoop_def Let_def split: option.splits list.splits)

lemma run_calm: "calm s \<Longrightarrow> \<forall>ev \<in> set evs. \<not> captures ev \<Longrightarrow> calm (run s evs)"
  unfolding run_def by (induction evs arbitrary: s) (simp_all add: step_calm)

subsection \<open>A tick whose frame encodes adds a request\<close>

lemma cycle_submits:
  assumes "capturing s" "map_of (intervals s) t \<noteq> None" "getContext env" "\<not> drawImageThrows env"
  shows "length (inflight (run s [Tick t env, ToBlob (Some blob)])) = Suc (length (inflight s))"
    and "capturing (run s [Tick t env, ToBlob (Some blob)])"
    and "intervals (run s [Tick t env, ToBlob (Some blob)]) = intervals s"
proof -
  from assms(2) obtain ms c where "map_of (intervals s) t = Some (ms, c)" by auto
  moreover from assms(1) obtain video canvas
    where "videoRef s = Some video" "canvasRef s = Some canvas"
      "isCameraOnRef s" "\<not> paused video" "\<not> ended video"
    by (auto simp add: capturing_def split: option.splits)
  ultimately show
    "length (inflight (run s [Tick t env, ToBlob (Some blob)])) = Suc (length (inflight s))"
    "capturing (run s [Tick t env, ToBlob (Some blob)])"
    "intervals (run s [Tick t env, ToBlob (Some blob)]) = intervals s"
    using assms(3,4)
    by (cases "toBlobQueue s";
        simp add: run_def capturing_def captureAndDetect_def captureAndDetect_toBlob_def Let_def)+
qed

lemma ticks_accumulate:
  "capturing s \<Longrightarrow> map_of (intervals s) t \<noteq> None \<Longrightarrow> getContext env \<Longrightarrow>
   \<not> drawImageThrows env \<Longrightarrow>
     length (inflight (run s (ticksUnanswered t env blob n))) = length (inflight s) + n"
proof (induction n arbitrary: s)
  case 0
  show ?case by (simp add: ticksUnanswered_def run_def)
next
  case (Suc n)
  let ?s1 = "run s [Tick t env, ToBlob (Some blob)]"
  have split: "run s (ticksUnanswered t env blob (Suc n)) = run ?s1 (ticksUnanswered t env blob n)"
    by (simp add: ticksUnanswered_def run_def)
  from Suc.prems have "length (inflight ?s1) = Suc (length (inflight s))"
    "capturing ?s1" "map_of (intervals ?s1) t \<noteq> None"
    by (simp_all add: cycle_submits)
  with Suc.IH [of ?s1] Suc.prems(3,4) split show ?case by simp
qed

subsection \<open>After unmounting\<close>

lemma unmount_frame:
  "published (unmount s) = published s"
  "videoRef (unmount s) = None"
  "stoppedTracks (unmount s) = stoppedTracks s"
  "intervalRef (unmount s) = None"
  "intervals (unmount s) = filter (\<lambda>e. Some (fst e) \<noteq> intervalRef s) (intervals s)"
  "inflight (unmount s) = inflight s"
  by (simp_all add: unmount_def settersDropped_def published_def stopCamera_def
      stopDetectionLoop_def Let_def split: option.splits)

lemma life_unmounted:
  assumes "videoRef s = None"
  shows "\<exists>s'. life (Unmounted s) e = Unmounted s' \<and> published s' = published s \<and>
           videoRef s' = None \<and> stoppedTracks s' = stoppedTracks s"
proof (cases e)
  case Unmount
  with assms show ?thesis by simp
next
  case (Deliver ev)
  with assms show ?thesis
    by (cases ev)
       (simp_all add: settersDropped_def published_def startCamera_stream_def
          startCamera_catch_def captureAndDetect_def captureAndDetect_toBlob_def
          captureAndDetect_settled_def split: list.splits option.splits Outcome.splits)
qed

lemma lifetime_unmounted:
  "videoRef s = None \<Longrightarrow>
     \<exists>s'. lifetime (Unmounted s) evs = Unmounted s' \<and> published s' = published s \<and>
          videoRef s' = None \<and> stoppedTracks s' = stoppedTracks s"
proof (induction evs arbitrary: s)
  case Nil
  then show ?case by (simp add: lifetime_def)
next
  case (Cons e evs)
  from life_unmounted [OF Cons.prems, of e] obtain s1
    where s1: "life (Unmounted s) e = Unmounted s1" "published s1 = published s"
      "videoRef s1 = None" "stoppedTracks s1 = stoppedTracks s"
    by blast
  from Cons.IH [OF s1(3)] obtain s'
    where "lifetime (Unmounted s1) evs = Unmounted s'" "published s' = published s1"
      "videoRef s' = None" "stoppedTracks s' = stoppedTracks s1"
    by blast
  with s1 show ?case by (simp add: lifetime_def)
qed

lemma after_unmount:
  "published (theState (lifetime (Mounted s) (Unmount # evs))) = published s"
  "stoppedTracks (theState (lifetime (Mounted s) (Unmount # evs))) = stoppedTracks s"
proof -
  from lifetime_unmounted [of "unmount s" evs] obtain s'
    where "lifetime (Unmounted (unmount s)) evs = Unmounted s'"
      "published s' = published (unmount s)" "stoppedTracks s' = stoppedTracks (unmount s)"
    by (auto simp add: unmount_frame)
  then show "published (theState (lifetime (Mounted s) (Unmount # evs))) = published s"
    "stoppedTracks (theState (lifetime (Mounted s) (Unmount # evs))) = stoppedTracks s"
    by (simp_all add: lifetime_def unmount_frame)
qed

section \<open>What the handlers of \<open>DriverView\<close> leave alone\<close>

lemma captureAndDetect_D_frame [simp]:
  "intervals_D (captureAndDetect_D env s) = intervals_D s"
  "intervalRef_D (captureAndDetect_D env s) = intervalRef_D s"
  "inflight_D (captureAndDetect_D env s) = inflight_D s"
  "detectionResult_D (captureAndDetect_D env s) = detectionResult_D s"
  "error_D (captureAndDetect_D env s) = error_D s"
  by (simp_all add: captureAndDetect_D_def Let_def split: option.splits)

lemma stopDetectionLoop_D_frame [simp]:
  "inflight_D (stopDetectionLoop_D s) = inflight_D s"
  "detectionResult_D (stopDetectionLoop_D s) = detectionResult_D s"
  "error_D (stopDetectionLoop_D s) = error_D s"
  "videoRef_D (stopDetectionLoop_D s) = videoRef_D s"
  "stoppedTracks_D (stopDetectionLoop_D s) = stoppedTracks_D s"
  "intervalRef_D (stopDetectionLoop_D s) = None"
  by (simp_all add: stopDetectionLoop_D_def split: option.splits)

lemma stopDetectionLoop_D_intervals:
  "intervals_D (stopDetectionLoop_D s) =
     filter (\<lambda>e. Some (fst e) \<noteq> intervalRef_D s) (intervals_D s)"
  by (simp add: stopDetectionLoop_D_def split: option.splits)

lemma startDetectionLoop_D_frame [simp]:
  "inflight_D (startDetectionLoop_D env s) = inflight_D s"
  "detectionResult_D (startDetectionLoop_D env s) = detectionResult_D s"
  "error_D (startDetectionLoop_D env s) = error_D s"
  by (simp_all add: startDetectionLoop_D_def Let_def)

lemma handleMetadataLoaded_D_frame [simp]:
  "inflight_D (handleMetadataLoaded_D env s) = inflight_D s"
  "detectionResult_D (handleMetadataLoaded_D env s) = detectionResult_D s"
  "error_D (handleMetadataLoaded_D env s) = error_D s"
  by (simp_all add: handleMetadataLoaded_D_def Let_def)

lemma fold_handleMetadataLoaded_D_frame [simp]:
  "inflight_D (fold (\<lambda>c. handleMetadataLoaded_D env) cs s) = inflight_D s"
  "detectionResult_D (fold (\<lambda>c. handleMetadataLoaded_D env) cs s) = detectionResult_D s"
  "error_D (fold (\<lambda>c. handleMetadataLoaded_D env) cs s) = error_D s"
  by (induction cs arbitrary: s) simp_all

lemma stopCamera_D_inflight [simp]: "inflight_D (stopCamera_D s) = inflight_D s"
  by (simp add: stopCamera_D_def Let_def split: option.splits)

lemma run_D_snoc: "run_D s (evs @ [ev]) = step_D (run_D s evs) ev"
  by (simp add: run_D_def)

subsection \<open>Every active interval is the one the ref holds\<close>

lemma stopDetectionLoop_D_owned:
  "timerOwned_D s \<Longrightarrow> intervals_D (stopDetectionLoop_D s) = []"
proof (cases "intervalRef_D s")
  case None
  assume "timerOwned_D s"
  with None have "intervals_D s = []"
    by (cases "intervals_D s") (auto simp add: timerOwned_D_def)
  with None show ?thesis by (simp add: stopDetectionLoop_D_def)
next
  case (Some t)
  assume "timerOwned_D s"
  with Some have "filter (\<lambda>e. fst e \<noteq> t) (intervals_D s) = []"
    by (auto simp add: timerOwned_D_def filter_empty_conv)
  with Some show ?thesis by (simp add: stopDetectionLoop_D_def)
qed

lemma startDetectionLoop_D_owned:
  "timerOwned_D s \<Longrightarrow> timerOwned_D (startDetectionLoop_D env s)"
  using stopDetectionLoop_D_owned [of s]
  by (simp add: timerOwned_D_def startDetectionLoop_D_def Let_def)

lemma handleMetadataLoaded_D_owned:
  "timerOwned_D s \<Longrightarrow> timerOwned_D (handleMetadataLoaded_D env s)"
proof -
  assume "timerOwned_D s"
  then have "timerOwned_D
      (s\<lparr>isLoading_D := False, videoRef_D := map_option play (videoRef_D s)\<rparr>)"
    by (simp add: timerOwned_D_def)
  then show ?thesis
    by (simp add: handleMetadataLoaded_D_def Let_def startDetectionLoop_D_owned)
qed

lemma fold_handleMetadataLoaded_D_owned:
  "timerOwned_D s \<Longrightarrow> timerOwned_D (fold (\<lambda>c. handleMetadataLoaded_D env) cs s)"
  by (induction cs arbitrary: s) (simp_all add: handleMetadataLoaded_D_owned)

lemma stopCamera_D_owned: "timerOwned_D s \<Longrightarrow> intervals_D (stopCamera_D s) = []"
  using stopDetectionLoop_D_owned [of s]
  by (simp add: stopCamera_D_def Let_def split: option.splits)

lemma stopCamera_D_intervalRef [simp]: "intervalRef_D (stopCamera_D s) = None"
  by (simp add: stopCamera_D_def Let_def split: option.splits)

lemma step_D_owned: "timerOwned_D s \<Longrightarrow> timerOwned_D (step_D s ev)"
proof (cases ev)
  case (LoadedMetadata_D w h env)
  assume o: "timerOwned_D s"
  show ?thesis
  proof (cases "videoRef_D s")
    case None
    with o LoadedMetadata_D show ?thesis by simp
  next
    case (Some v)
    from o have "timerOwned_D
        (s\<lparr>videoRef_D := Some (v\<lparr>videoWidth := w, videoHeight := h, loadedmetadata := []\<rparr>)\<rparr>)"
      by (simp add: timerOwned_D_def)
    with Some LoadedMetadata_D show ?thesis by (simp add: fold_handleMetadataLoaded_D_owned)
  qed
qed (simp_all add: timerOwned_D_def startCamera_stream_D_def
       startCamera_catch_D_def captureAndDetect_toBlob_D_def captureAndDetect_settled_D_def
       split: option.splits nat.splits Outcome.splits)

lemma run_D_owned: "timerOwned_D s \<Longrightarrow> timerOwned_D (run_D s evs)"
  unfolding run_D_def by (induction evs arbitrary: s) (simp_all add: step_D_owned)

lemma mounted_D_owned: "timerOwned_D mounted_D"
  by (simp add: timerOwned_D_def mounted_D_def rendered_D_def startCamera_D_def)

subsection \<open>Every request carries a blob the encoder delivered, and no parameter\<close>

lemma step_D_inflight:
  "r \<in> set (inflight_D (step_D s ev)) \<Longrightarrow>
     r \<in> set (inflight_D s) \<or> (ev = ToBlob_D (Some (formData_file r)) \<and> searchParams r = [])"
proof (cases ev)
  case (ToBlob_D blob)
  assume "r \<in> set (inflight_D (step_D s ev))"
  with ToBlob_D show ?thesis
    by (auto simp add: captureAndDetect_toBlob_D_def split: nat.splits option.splits)
next
  case (Settled_D i out)
  assume "r \<in> set (inflight_D (step_D s ev))"
  with Settled_D show ?thesis
    by (auto simp add: captureAndDetect_settled_D_def
        dest: in_set_takeD in_set_dropD split: Outcome.splits if_splits)
qed (auto simp add: startCamera_stream_D_def startCamera_catch_D_def
       split: option.splits nat.splits)

lemma run_D_inflight:
  "\<forall>r \<in> set (inflight_D (run_D mounted_D evs)).
     ToBlob_D (Some (formData_file r)) \<in> set evs \<and> searchParams r = []"
proof (induction evs rule: rev_induct)
  case Nil
  show ?case by (simp add: run_D_def mounted_D_def rendered_D_def startCamera_D_def)
next
  case (snoc ev evs)
  show ?case
  proof
    fix r
    assume "r \<in> set (inflight_D (run_D mounted_D (evs @ [ev])))"
    then have "r \<in> set (inflight_D (run_D mounted_D evs)) \<or>
        (ev = ToBlob_D (Some (formData_file r)) \<and> searchParams r = [])"
      by (simp add: run_D_snoc step_D_inflight)
    with snoc show "ToBlob_D (Some (formData_file r)) \<in> set (evs @ [ev]) \<and> searchParams r = []"
      by auto
  qed
qed

subsection \<open>No result without a capture\<close>

lemma step_D_calm: "calm_D s \<Longrightarrow> \<not> captures_D ev \<Longrightarrow> calm_D (step_D s ev)"
  by (cases ev)
     (simp_all add: calm_D_def startCamera_stream_D_def startCamera_catch_D_def
        split: option.splits nat.splits)

lemma run_D_calm:
  "calm_D s \<Longrightarrow> \<forall>ev \<in> set evs. \<not> captures_D ev \<Longrightarrow> calm_D (run_D s evs)"
  unfolding run_D_def by (induction evs arbitrary: s) (simp_all add: step_D_calm)

subsection \<open>A tick whose frame encodes adds a request\<close>

lemma cycle_submits_D:
  assumes "capturing_D s" "map_of (intervals_D s) t \<noteq> None" "getContext env"
    "\<not> drawImageThrows env"
  shows "length (inflight_D (run_D s [Tick_D t env, ToBlob_D (Some blob)]))
      = Suc (length (inflight_D s))"
    and "capturing_D (run_D s [Tick_D t env, ToBlob_D (Some blob)])"
    and "intervals_D (run_D s [Tick_D t env, ToBlob_D (Some blob)]) = intervals_D s"
proof -
  from assms(2) obtain ms where "map_of (intervals_D s) t = Some ms" by auto
  moreover from assms(1) obtain video canvas
    where "videoRef_D s = Some video" "canvasRef_D s = Some canvas"
      "isCameraOnRef_D s" "\<not> paused video" "\<not> ended video"
    by (auto simp add: capturing_D_def split: option.splits)
  ultimately show
    "length (inflight_D (run_D s [Tick_D t env, ToBlob_D (Some blob)]))
      = Suc (length (inflight_D s))"
    "capturing_D (run_D s [Tick_D t env, ToBlob_D (Some blob)])"
    "intervals_D (run_D s [Tick_D t env, ToBlob_D (Some blob)]) = intervals_D s"
    using assms(3,4)
    by (simp_all add: run_D_def capturing_D_def captureAndDetect_D_def
        captureAndDetect_toBlob_D_def Let_def)
qed

lemma ticks_accumulate_D:
  "capturing_D s \<Longrightarrow> map_of (intervals_D s) t \<noteq> None \<Longrightarrow> getContext env \<Longrightarrow>
   \<not> drawImageThrows env \<Longrightarrow>
     length (inflight_D (run_D s (ticksUnanswered_D t env blob n))) = length (inflight_D s) + n"
proof (induction n arbitrary: s)
  case 0
  show ?case by (simp add: ticksUnanswered_D_def run_D_def)
next
  case (Suc n)
  let ?s1 = "run_D s [Tick_D t env, ToBlob_D (Some blob)]"
  have split: "run_D s (ticksUnanswered_D t env blob (Suc n))
      = run_D ?s1 (ticksUnanswered_D t env blob n)"
    by (simp add: ticksUnanswered_D_def run_D_def)
  from Suc.prems have "length (inflight_D ?s1) = Suc (length (inflight_D s))"
    "capturing_D ?s1" "map_of (intervals_D ?s1) t \<noteq> None"
    by (simp_all add: cycle_submits_D)
  with Suc.IH [of ?s1] Suc.prems(3,4) split show ?case by simp
qed

subsection \<open>After unmounting\<close>

lemma unmount_D_frame:
  "published_D (unmount_D s) = published_D s"
  "videoRef_D (unmount_D s) = None"
  "stoppedTracks_D (unmount_D s) = stoppedTracks_D s"
  "intervalRef_D (unmount_D s) = None"
  "intervals_D (unmount_D s) = filter (\<lambda>e. Some (fst e) \<noteq> intervalRef_D s) (intervals_D s)"
  "inflight_D (unmount_D s) = inflight_D s"
  by (simp_all add: unmount_D_def settersDropped_D_def published_D_def stopCamera_D_def
      stopDetectionLoop_D_def Let_def split: option.splits)

lemma life_D_unmounted:
  assumes "videoRef_D s = None"
  shows "\<exists>s'. life_D (Unmounted s) e = Unmounted s' \<and> published_D s' = published_D s \<and>
           videoRef_D s' = None \<and> stoppedTracks_D s' = stoppedTracks_D s"
proof (cases e)
  case Unmount
  with assms show ?thesis by simp
next
  case (Deliver ev)
  with assms show ?thesis
    by (cases ev)
       (simp_all add: settersDropped_D_def published_D_def startCamera_stream_D_def
          startCamera_catch_D_def captureAndDetect_D_def captureAndDetect_toBlob_D_def
          captureAndDetect_settled_D_def split: nat.splits option.splits Outcome.splits)
qed

lemma lifetime_D_unmounted:
  "videoRef_D s = None \<Longrightarrow>
     \<exists>s'. lifetime_D (Unmounted s) evs = Unmounted s' \<and> published_D s' = published_D s \<and>
          videoRef_D s' = None \<and> stoppedTracks_D s' = stoppedTracks_D s"
proof (induction evs arbitrary: s)
  case Nil
  then show ?case by (simp add: lifetime_D_def)
next
  case (Cons e evs)
  from life_D_unmounted [OF Cons.prems, of e] obtain s1
    where s1: "life_D (Unmounted s) e = Unmounted s1" "published_D s1 = published_D s"
      "videoRef_D s1 = None" "stoppedTracks_D s1 = stoppedTracks_D s"
    by blast
  from Cons.IH [OF s1(3)] obtain s'
    where "lifetime_D (Unmounted s1) evs = Unmounted s'" "published_D s' = published_D s1"
      "videoRef_D s' = None" "stoppedTracks_D s' = stoppedTracks_D s1"
    by blast
  with s1 show ?case by (simp add: lifetime_D_def)
qed

lemma after_unmount_D:
  "published_D (theState (lifetime_D (Mounted s) (Unmount # evs))) = published_D s"
  "stoppedTracks_D (theState (lifetime_D (Mounted s) (Unmount # evs))) = stoppedTracks_D s"
proof -
  from lifetime_D_unmounted [of "unmount_D s" evs] obtain s'
    where "lifetime_D (Unmounted (unmount_D s)) evs = Unmounted s'"
      "published_D s' = published_D (unmount_D s)"
      "stoppedTracks_D s' = stoppedTracks_D (unmount_D s)"
    by (auto simp add: unmount_D_frame)
  then show "published_D (theState (lifetime_D (Mounted s) (Unmount # evs))) = published_D s"
    "stoppedTracks_D (theState (lifetime_D (Mounted s) (Unmount # evs))) = stoppedTracks_D s"
    by (simp_all add: lifetime_D_def unmount_D_frame)
qed

section \<open>Evaluating sample sessions\<close>

lemmas session_eval =
  run_def run_D_def mounted_def mounted_D_def rendered_D_def firstSubmission_def
  firstSubmission_D_def lifetime_def lifetime_D_def unmount_def unmount_D_def
  settersDropped_def settersDropped_D_def published_def published_D_def
  canvasOk_def jpeg1_def jpeg2_def foggy_def foggy_D_def timedOut_def serverError_def
  startCamera_def startCamera_D_def startCamera_stream_def startCamera_stream_D_def
  startCamera_catch_def startCamera_catch_D_def handleMetadataLoaded_def
  handleMetadataLoaded_D_def startDetectionLoop_def startDetectionLoop_D_def
  stopDetectionLoop_def stopDetectionLoop_D_def captureAndDetect_def captureAndDetect_D_def
  captureAndDetect_toBlob_def captureAndDetect_toBlob_D_def captureAndDetect_settled_def
  captureAndDetect_settled_D_def stopCamera_def stopCamera_D_def play_def processedHist_def
  errorMsg_def digit_def toString.simps DETECTION_INTERVAL_MS_def DETECTION_INTERVAL_MS_D_def
  DEFAULT_LAPLACIAN_THRESHOLD_def DEFAULT_HIST_STD_DEV_THRESHOLD_def Let_def

section \<open>The concurrency guard\<close>

text \<open>
  C1, as the code has it. A tick takes the same course whether or not an earlier
  submission is unresolved: \<open>captureAndDetect\<close> reads neither the in-flight flag
  \<open>isDetecting\<close> (both views set and clear it, nothing tests it) nor the set of
  unresolved requests. So a tick of an active interval whose guard passes and whose frame
  rasterizes and encodes issues one more request, in addition to those outstanding, and
  \<open>n\<close> such ticks without a response in between leave \<open>n\<close> more requests unresolved.
\<close>

theorem tick_ignores_unresolved_submissions:
  "captureAndDetect c env (s\<lparr>isDetecting := b, inflight := q\<rparr>)
     = (captureAndDetect c env s)\<lparr>isDetecting := b, inflight := q\<rparr> \<and>
   captureAndDetect_D env (d\<lparr>isDetecting_D := b, inflight_D := q\<rparr>)
     = (captureAndDetect_D env d)\<lparr>isDetecting_D := b, inflight_D := q\<rparr> \<and>
   (capturing s \<and> map_of (intervals s) t \<noteq> None \<and> getContext env \<and> \<not> drawImageThrows env \<longrightarrow>
      length (inflight (run s [Tick t env, ToBlob (Some blob)])) = Suc (length (inflight s)) \<and>
      length (inflight (run s (ticksUnanswered t env blob n))) = length (inflight s) + n) \<and>
   (capturing_D d \<and> map_of (intervals_D d) t \<noteq> None \<and> getContext env \<and> \<not> drawImageThrows env \<longrightarrow>
      length (inflight_D (run_D d [Tick_D t env, ToBlob_D (Some blob)]))
        = Suc (length (inflight_D d)) \<and>
      length (inflight_D (run_D d (ticksUnanswered_D t env blob n))) = length (inflight_D d) + n)"
proof -
  have unread: "captureAndDetect c env (s\<lparr>isDetecting := b, inflight := q\<rparr>)
      = (captureAndDetect c env s)\<lparr>isDetecting := b, inflight := q\<rparr>"
    by (simp add: captureAndDetect_def Let_def split: option.splits)
  have unread_D: "captureAndDetect_D env (d\<lparr>isDetecting_D := b, inflight_D := q\<rparr>)
      = (captureAndDetect_D env d)\<lparr>isDetecting_D := b, inflight_D := q\<rparr>"
    by (simp add: captureAndDetect_D_def Let_def split: option.splits)
  from unread unread_D show ?thesis
    by (simp add: cycle_submits(1) cycle_submits_D(1) ticks_accumulate ticks_accumulate_D)
qed

text \<open>The theorem at a running session of each view in which the detecting flag is set
  and one request is outstanding: the next tick submits a second frame, and three ticks
  without a response leave four requests unresolved.\<close>

theorem tick_ignores_unresolved_submissions_witness:
  "capturing (run mounted firstSubmission) \<and>
   isDetecting (run mounted firstSubmission) \<and>
   map formData_file (inflight (run mounted firstSubmission)) = [jpeg1] \<and>
   length (inflight (run (run mounted firstSubmission) [Tick 1 canvasOk, ToBlob (Some jpeg2)])) = 2 \<and>
   length (inflight (run (run mounted firstSubmission) (ticksUnanswered 1 canvasOk jpeg2 3))) = 4 \<and>
   capturing_D (run_D mounted_D firstSubmission_D) \<and>
   length (inflight_D (run_D (run_D mounted_D firstSubmission_D)
      [Tick_D 1 canvasOk, ToBlob_D (Some jpeg2)])) = 2 \<and>
   length (inflight_D (run_D (run_D mounted_D firstSubmission_D)
      (ticksUnanswered_D 1 canvasOk jpeg2 3))) = 4"
proof -
  let ?s = "run mounted firstSubmission" and ?d = "run_D mounted_D firstSubmission_D"
  have ready: "capturing ?s \<and> map_of (intervals ?s) 1 \<noteq> None \<and> getContext canvasOk \<and>
      \<not> drawImageThrows canvasOk"
    by (simp add: session_eval capturing_def)
  have ready_D: "capturing_D ?d \<and> map_of (intervals_D ?d) 1 \<noteq> None \<and> getContext canvasOk \<and>
      \<not> drawImageThrows canvasOk"
    by (simp add: session_eval capturing_D_def)
  have before: "isDetecting ?s" "map formData_file (inflight ?s) = [jpeg1]"
    "length (inflight ?s) = 1" "length (inflight_D ?d) = 1"
    by (simp_all add: session_eval)
  from ready ready_D tick_ignores_unresolved_submissions
    [where s = ?s and d = ?d and t = 1 and env = canvasOk and blob = jpeg2 and n = 3]
  have "length (inflight (run ?s [Tick 1 canvasOk, ToBlob (Some jpeg2)]))
        = Suc (length (inflight ?s))"
    "length (inflight (run ?s (ticksUnanswered 1 canvasOk jpeg2 3))) = length (inflight ?s) + 3"
    "length (inflight_D (run_D ?d [Tick_D 1 canvasOk, ToBlob_D (Some jpeg2)]))
        = Suc (length (inflight_D ?d))"
    "length (inflight_D (run_D ?d (ticksUnanswered_D 1 canvasOk jpeg2 3)))
        = length (inflight_D ?d) + 3"
    by blast+
  with before have "length (inflight (run ?s [Tick 1 canvasOk, ToBlob (Some jpeg2)])) = 2"
    "length (inflight (run ?s (ticksUnanswered 1 canvasOk jpeg2 3))) = 4"
    "length (inflight_D (run_D ?d [Tick_D 1 canvasOk, ToBlob_D (Some jpeg2)])) = 2"
    "length (inflight_D (run_D ?d (ticksUnanswered_D 1 canvasOk jpeg2 3))) = 4"
    by simp_all
  with ready ready_D before show ?thesis by blast
qed

text \<open>Against C1 as stated: in both views the session below has one unresolved
  submission when the interval ticks, the tick is not skipped, and two submissions are
  unresolved at once.\<close>

theorem two_unresolved_submissions:
  "map formData_file (inflight (run mounted firstSubmission)) = [jpeg1] \<and>
   map formData_file
     (inflight (run mounted (firstSubmission @ [Tick 1 canvasOk, ToBlob (Some jpeg2)])))
     = [jpeg1, jpeg2] \<and>
   map formData_file (inflight_D (run_D mounted_D firstSubmission_D)) = [jpeg1] \<and>
   map formData_file
     (inflight_D (run_D mounted_D (firstSubmission_D @ [Tick_D 1 canvasOk, ToBlob_D (Some jpeg2)])))
     = [jpeg1, jpeg2]"
  by (simp add: session_eval)

section \<open>Responses that arrive after stop\<close>

text \<open>
  C2, as the code has it. The two ways of stopping differ. When a component unmounts
  (the only stop of the driver view, and the cleanup of the developer view), a late
  response is discarded: whatever arrives and whatever else happens afterwards, the state
  variables the view shows keep the values they had. When the developer view is stopped
  with its Stop button it stays mounted; \<open>stopCamera\<close> leaves the unresolved requests
  outstanding, and the continuation of \<open>captureAndDetect\<close> after its \<open>await\<close> tests
  nothing before it calls the setters. There the late response is applied: a successful
  one publishes its result and histogram over the state that stop cleared, with the
  camera flag off; a failed one leaves the result and the error cleared.
\<close>

theorem late_response_after_stop:
  "published (theState (lifetime (Mounted s) (Unmount # evs))) = published s \<and>
   published_D (theState (lifetime_D (Mounted d) (Unmount # devs))) = published_D d \<and>
   inflight (stopCamera s) = inflight s \<and>
   (i < length (inflight s) \<longrightarrow>
      detectionResult (run s [StopCamera, Settled i (Fulfilled r)]) = Some r \<and>
      histogramData (run s [StopCamera, Settled i (Fulfilled r)])
        = (case histogram r of None \<Rightarrow> [] | Some h \<Rightarrow> processedHist h) \<and>
      \<not> isCameraOn (run s [StopCamera, Settled i (Fulfilled r)]) \<and>
      detectionResult (run s [StopCamera, Settled i (Rejected err)]) = None \<and>
      error (run s [StopCamera, Settled i (Rejected err)]) = None)"
proof -
  have button: "detectionResult (run s [StopCamera, Settled i (Fulfilled r)]) = Some r \<and>
      histogramData (run s [StopCamera, Settled i (Fulfilled r)])
        = (case histogram r of None \<Rightarrow> [] | Some h \<Rightarrow> processedHist h) \<and>
      \<not> isCameraOn (run s [StopCamera, Settled i (Fulfilled r)]) \<and>
      detectionResult (run s [StopCamera, Settled i (Rejected err)]) = None \<and>
      error (run s [StopCamera, Settled i (Rejected err)]) = None"
    if "i < length (inflight s)"
    using that
    by (simp add: run_def captureAndDetect_settled_def stopCamera_def Let_def processedHist_def
        split: option.splits)
  from button after_unmount(1) [of s evs] after_unmount_D(1) [of d devs] show ?thesis
    by simp
qed

text \<open>The theorem at a running session of each view with one request outstanding: after
  unmounting, the response is consumed and nothing is published; after the Stop button
  of the developer view, the response is published.\<close>

theorem late_response_after_stop_witness:
  "length (inflight (run mounted firstSubmission)) = 1 \<and>
   published (theState (lifetime (Mounted (run mounted firstSubmission))
      [Unmount, Deliver (Settled 0 (Fulfilled foggy))]))
     = (None, None, [], True, False, True) \<and>
   inflight (theState (lifetime (Mounted (run mounted firstSubmission))
      [Unmount, Deliver (Settled 0 (Fulfilled foggy))])) = [] \<and>
   published_D (theState (lifetime_D (Mounted (run_D mounted_D firstSubmission_D))
      [Unmount, Deliver (Settled_D 0 (Rejected timedOut))]))
     = (None, None, True, False, True) \<and>
   detectionResult (run (run mounted firstSubmission) [StopCamera, Settled 0 (Fulfilled foggy)])
     = Some foggy"
  using late_response_after_stop
    [where s = "run mounted firstSubmission" and d = "run_D mounted_D firstSubmission_D"
       and evs = "[Deliver (Settled 0 (Fulfilled foggy))]"
       and devs = "[Deliver (Settled_D 0 (Rejected timedOut))]"
       and i = 0 and r = foggy and err = timedOut]
  by (simp add: session_eval)

text \<open>Against C2 as stated: the developer view is stopped with its Stop button while its
  request is outstanding, stop clears the result, and the response that arrives afterwards
  is published with the camera off.\<close>

theorem late_response_published_to_stopped_session:
  "detectionResult (run mounted (firstSubmission @ [StopCamera])) = None \<and>
   detectionResult (run mounted (firstSubmission @ [StopCamera, Settled 0 (Fulfilled foggy)]))
     = Some foggy \<and>
   \<not> isCameraOn (run mounted (firstSubmission @ [StopCamera, Settled 0 (Fulfilled foggy)]))"
  by (simp add: session_eval)

section \<open>Classification by the detection service\<close>

text \<open>
  C3. For every pixel buffer and positive thresholds, \<open>detect\<close> reports fog exactly when
  the Laplacian variance and the histogram standard deviation are both below their
  thresholds, and grades the intensity by the shortfall
  \<open>1 - min (laplacianVariance / laplacianThreshold) (histogramStdDev / stdDevThreshold)\<close>:
  Clear below 0, Light from 0 up to one half, Heavy from one half on. In particular an
  image whose two metrics are 0 (a uniform image) is classified as fog of intensity Heavy.
\<close>

theorem detect_classification:
  "0 < lt \<and> 0 < st \<longrightarrow>
     (let r = detect analyse buf lt st;
          m = analyse buf;
          x = 1 - min (laplacianVariance m / lt) (histogramStdDev m / st)
      in fogDetected r = (laplacianVariance m < lt \<and> histogramStdDev m < st) \<and>
         (x < 0 \<longrightarrow> intensity r = Clear) \<and>
         (0 \<le> x \<and> x < 1 / 2 \<longrightarrow> intensity r = Light) \<and>
         (1 / 2 \<le> x \<longrightarrow> intensity r = Heavy) \<and>
         (laplacianVariance m = 0 \<and> histogramStdDev m = 0 \<longrightarrow>
            fogDetected r \<and> intensity r = Heavy))"
proof -
  define m where "m = analyse buf"
  define x where "x = 1 - min (laplacianVariance m / lt) (histogramStdDev m / st)"
  define r where "r = detect analyse buf lt st"
  have fd: "fogDetected r = (laplacianVariance m < lt \<and> histogramStdDev m < st)"
    by (simp add: r_def m_def detect_def Let_def)
  have i: "intensity r = tier x"
    by (simp add: r_def m_def x_def detect_def shortfall_def Let_def)
  have t1: "x < 0 \<Longrightarrow> intensity r = Clear"
    and t2: "0 \<le> x \<Longrightarrow> x < 1 / 2 \<Longrightarrow> intensity r = Light"
    and t3: "1 / 2 \<le> x \<Longrightarrow> intensity r = Heavy"
    by (simp_all add: i tier_def)
  have u: "fogDetected r \<and> intensity r = Heavy"
    if "0 < lt" "0 < st" "laplacianVariance m = 0" "histogramStdDev m = 0"
  proof -
    from that have "x = 1" by (simp add: x_def)
    with that show ?thesis by (simp add: fd i tier_def)
  qed
  from fd t1 t2 t3 u show ?thesis
    unfolding Let_def m_def [symmetric] x_def [symmetric] r_def [symmetric] by blast
qed

text \<open>The theorem at the spec's scenario: a solid mid-gray frame, whose two metrics are
  0, with the thresholds 250 and 40.\<close>

theorem detect_classification_witness:
  "fogDetected
     (detect (\<lambda>buf. \<lparr>laplacianVariance = 0, histogramStdDev = 0\<rparr>) (replicate 4 (128::nat)) 250 40) \<and>
   intensity
     (detect (\<lambda>buf. \<lparr>laplacianVariance = 0, histogramStdDev = 0\<rparr>) (replicate 4 (128::nat)) 250 40)
     = Heavy"
  using detect_classification
    [where lt = 250 and st = 40 and buf = "replicate 4 (128::nat)"
       and analyse = "\<lambda>buf. \<lparr>laplacianVariance = 0, histogramStdDev = 0\<rparr>"]
  by (simp add: Let_def)

section \<open>A cycle that fails\<close>

text \<open>
  C4, evaluated on the code. When a request is rejected (timeout, no response, or an
  error status), both views clear the published result and leave the interval and its
  ref as they are, so the next tick runs. The driver view publishes the error message.
  The developer view does not: its \<open>catch\<close> only logs and clears, and the error state
  keeps its previous value.
\<close>

theorem home_failure_publishes_no_error:
  "error (captureAndDetect_settled (Rejected err) s) = error s \<and>
   detectionResult (captureAndDetect_settled (Rejected err) s) = None \<and>
   histogramData (captureAndDetect_settled (Rejected err) s) = [] \<and>
   intervals (captureAndDetect_settled (Rejected err) s) = intervals s \<and>
   intervalRef (captureAndDetect_settled (Rejected err) s) = intervalRef s \<and>
   error_D (captureAndDetect_settled_D (Rejected err) d) = Some (errorMsg err) \<and>
   detectionResult_D (captureAndDetect_settled_D (Rejected err) d) = None \<and>
   intervals_D (captureAndDetect_settled_D (Rejected err) d) = intervals_D d \<and>
   intervalRef_D (captureAndDetect_settled_D (Rejected err) d) = intervalRef_D d"
  by (simp add: captureAndDetect_settled_def captureAndDetect_settled_D_def)

text \<open>The theorem at a session of each view whose first request times out: the driver
  view shows the timeout, the developer view shows no error; a server error likewise.\<close>

theorem home_failure_publishes_no_error_witness:
  "error (run mounted (firstSubmission @ [Settled 0 (Rejected timedOut)])) = None \<and>
   error (run mounted (firstSubmission @ [Settled 0 (Rejected serverError)])) = None \<and>
   detectionResult (run mounted (firstSubmission @ [Settled 0 (Rejected timedOut)])) = None \<and>
   error_D (run_D mounted_D (firstSubmission_D @ [Settled_D 0 (Rejected timedOut)]))
     = Some ''Connection timeout.'' \<and>
   error_D (run_D mounted_D (firstSubmission_D @ [Settled_D 0 (Rejected serverError)]))
     = Some ''Server error: 500''"
  using home_failure_publishes_no_error
    [where err = timedOut and s = "run mounted firstSubmission"
       and d = "run_D mounted_D firstSubmission_D"]
  by (simp add: session_eval)

section \<open>Stopping\<close>

lemma owned_filter:
  "timerOwned s \<Longrightarrow> filter (\<lambda>e. Some (fst e) \<noteq> intervalRef s) (intervals s) = []"
  by (auto simp add: timerOwned_def filter_empty_conv)

lemma owned_filter_D:
  "timerOwned_D s \<Longrightarrow> filter (\<lambda>e. Some (fst e) \<noteq> intervalRef_D s) (intervals_D s) = []"
  by (auto simp add: timerOwned_D_def filter_empty_conv)

text \<open>
  C5, evaluated on the code. The stop operation runs in two situations. As the cleanup of
  the mount effect, when the component unmounts (the only stop of the driver view),
  \<open>videoRef.current\<close> is already null: the guard around the release fails, no track is
  stopped then or at any later time, and the stream stays attached to the detached
  element; of the claim only the cancelling of the interval happens, in every state a
  mounted component can reach. From the Stop button of the mounted developer view, the
  operation does what the claim says: it empties the interval ref and clears that
  interval, stops every track of the attached stream and detaches it, clears result,
  error and histogram and turns the three flags off.
\<close>

theorem unmount_leaves_stream_running:
  "stoppedTracks_D (unmount_D d) = stoppedTracks_D d \<and>
   stoppedTracks_D (theState (lifetime_D (Mounted d) (Unmount # devs))) = stoppedTracks_D d \<and>
   intervalRef_D (unmount_D d) = None \<and>
   intervals_D (unmount_D (run_D mounted_D ds)) = [] \<and>
   stoppedTracks (unmount s) = stoppedTracks s \<and>
   stoppedTracks (theState (lifetime (Mounted s) (Unmount # evs))) = stoppedTracks s \<and>
   intervalRef (unmount s) = None \<and>
   intervals (unmount (run mounted es)) = [] \<and>
   intervalRef (stopCamera s) = None \<and>
   intervals (stopCamera s) = filter (\<lambda>e. Some (fst e) \<noteq> intervalRef s) (intervals s) \<and>
   intervals (stopCamera (run mounted es)) = [] \<and>
   videoRef (stopCamera s) = map_option (\<lambda>v. v\<lparr>srcObject := None\<rparr>) (videoRef s) \<and>
   stoppedTracks (stopCamera s) = stoppedTracks s \<union> attachedTracks (videoRef s) \<and>
   published (stopCamera s) = (None, None, [], False, False, False)"
proof -
  have leak_D: "stoppedTracks_D (unmount_D d) = stoppedTracks_D d"
    "stoppedTracks_D (theState (lifetime_D (Mounted d) (Unmount # devs))) = stoppedTracks_D d"
    "intervalRef_D (unmount_D d) = None"
    by (simp_all add: unmount_D_frame after_unmount_D)
  have timer_D: "intervals_D (unmount_D (run_D mounted_D ds)) = []"
    by (simp add: unmount_D_frame owned_filter_D run_D_owned mounted_D_owned)
  have leak: "stoppedTracks (unmount s) = stoppedTracks s"
    "stoppedTracks (theState (lifetime (Mounted s) (Unmount # evs))) = stoppedTracks s"
    "intervalRef (unmount s) = None"
    by (simp_all add: unmount_frame after_unmount)
  have timer: "intervals (unmount (run mounted es)) = []"
    by (simp add: unmount_frame owned_filter run_owned mounted_owned)
  have button_timer:
    "intervals (stopCamera s) = filter (\<lambda>e. Some (fst e) \<noteq> intervalRef s) (intervals s)"
    using stopDetectionLoop_intervals [of s]
    by (simp add: stopCamera_def Let_def split: option.splits)
  have button_none: "intervals (stopCamera (run mounted es)) = []"
    by (simp add: stopCamera_owned run_owned mounted_owned)
  have button: "videoRef (stopCamera s) = map_option (\<lambda>v. v\<lparr>srcObject := None\<rparr>) (videoRef s)"
    "stoppedTracks (stopCamera s) = stoppedTracks s \<union> attachedTracks (videoRef s)"
    "published (stopCamera s) = (None, None, [], False, False, False)"
    by (simp_all add: stopCamera_def Let_def attachedTracks_def published_def
        split: option.splits)
  from leak_D timer_D leak timer button_timer button_none button show ?thesis
    by simp
qed

text \<open>The theorem at a running session of each view with a stream of one track: unmounting
  clears the interval and stops no track; the Stop button of the developer view stops the
  track and detaches the stream. Two further sessions of the developer view: a stop while
  \<open>getUserMedia\<close> is pending, after which the stream arrives and the camera turns on;
  and a stop while a frame is being encoded, after which the callback sets the detecting
  flag and submits the frame.\<close>

theorem unmount_leaves_stream_running_witness:
  "attachedTracks (videoRef_D (run_D mounted_D firstSubmission_D)) = {0} \<and>
   intervals_D (run_D mounted_D firstSubmission_D) = [(1, 1500)] \<and>
   intervals_D (unmount_D (run_D mounted_D firstSubmission_D)) = [] \<and>
   stoppedTracks_D (unmount_D (run_D mounted_D firstSubmission_D)) = {} \<and>
   attachedTracks (videoRef (run mounted firstSubmission)) = {0} \<and>
   stoppedTracks (unmount (run mounted firstSubmission)) = {} \<and>
   stoppedTracks (stopCamera (run mounted firstSubmission)) = {0} \<and>
   attachedTracks (videoRef (stopCamera (run mounted firstSubmission))) = {} \<and>
   isCameraOn (run mounted [StartCamera, StopCamera, GetUserMediaStream [0]]) \<and>
   stoppedTracks (run mounted [StartCamera, StopCamera, GetUserMediaStream [0]]) = {} \<and>
   isDetecting
     (run mounted (firstSubmission @ [Settled 0 (Rejected timedOut), Tick 1 canvasOk, StopCamera,
        ToBlob (Some jpeg2)])) \<and>
   map formData_file (inflight
     (run mounted (firstSubmission @ [Settled 0 (Rejected timedOut), Tick 1 canvasOk, StopCamera,
        ToBlob (Some jpeg2)]))) = [jpeg2]"
  using unmount_leaves_stream_running
    [where s = "run mounted firstSubmission" and d = "run_D mounted_D firstSubmission_D"
       and es = firstSubmission and ds = firstSubmission_D]
  by (simp add: session_eval attachedTracks_def)

section \<open>Frame-encoding failures\<close>

text \<open>
  C6. A cycle whose frame cannot be rasterized or encoded does nothing. When
  \<open>getContext\<close> returns null or \<open>drawImage\<close> throws, \<open>captureAndDetect\<close> returns
  before \<open>toBlob\<close>: apart from the canvas having been resized to the video, the state
  is the one before the call, so no callback is queued, no request is issued, no error
  or result is published and the interval keeps running. When the encoder delivers a
  null blob, the callback returns at once; as an event it only leaves the queue of
  pending callbacks. This holds in both views.
\<close>

theorem encoding_failure_is_noop:
  "(\<not> getContext env \<or> drawImageThrows env \<longrightarrow>
      (captureAndDetect c env s)\<lparr>canvasRef := canvasRef s\<rparr> = s \<and>
      (captureAndDetect_D env d)\<lparr>canvasRef_D := canvasRef_D d\<rparr> = d) \<and>
   captureAndDetect_toBlob c None s = s \<and>
   captureAndDetect_toBlob_D None d = d \<and>
   step s (ToBlob None) = s\<lparr>toBlobQueue := tl (toBlobQueue s)\<rparr> \<and>
   step_D d (ToBlob_D None) = d\<lparr>toBlobQueue_D := toBlobQueue_D d - 1\<rparr>"
proof -
  have home: "\<not> getContext env \<or> drawImageThrows env \<Longrightarrow>
      (captureAndDetect c env s)\<lparr>canvasRef := canvasRef s\<rparr> = s"
    by (simp add: captureAndDetect_def Let_def split: option.splits)
  have driver: "\<not> getContext env \<or> drawImageThrows env \<Longrightarrow>
      (captureAndDetect_D env d)\<lparr>canvasRef_D := canvasRef_D d\<rparr> = d"
    by (simp add: captureAndDetect_D_def Let_def split: option.splits)
  have null_blob: "captureAndDetect_toBlob c None s = s" "captureAndDetect_toBlob_D None d = d"
    by (simp_all add: captureAndDetect_toBlob_def captureAndDetect_toBlob_D_def)
  have ev: "step s (ToBlob None) = s\<lparr>toBlobQueue := tl (toBlobQueue s)\<rparr>"
    by (cases "toBlobQueue s") (simp_all add: captureAndDetect_toBlob_def)
  have ev_D: "step_D d (ToBlob_D None) = d\<lparr>toBlobQueue_D := toBlobQueue_D d - 1\<rparr>"
    by (cases "toBlobQueue_D d") (simp_all add: captureAndDetect_toBlob_D_def)
  from home driver null_blob ev ev_D show ?thesis by blast
qed

text \<open>The theorem at a running session of each view whose canvas gives no context: the
  tick changes nothing, and the one unresolved request is still the only one.\<close>

theorem encoding_failure_is_noop_witness:
  "(captureAndDetect (250, 40) \<lparr>getContext = False, drawImageThrows = False\<rparr>
      (run mounted firstSubmission))\<lparr>canvasRef := canvasRef (run mounted firstSubmission)\<rparr>
     = run mounted firstSubmission \<and>
   (captureAndDetect_D \<lparr>getContext = False, drawImageThrows = False\<rparr>
      (run_D mounted_D firstSubmission_D))\<lparr>canvasRef_D := canvasRef_D (run_D mounted_D firstSubmission_D)\<rparr>
     = run_D mounted_D firstSubmission_D \<and>
   length (inflight (step (run mounted firstSubmission)
      (Tick 1 \<lparr>getContext = False, drawImageThrows = False\<rparr>))) = 1"
  using encoding_failure_is_noop
    [where env = "\<lparr>getContext = False, drawImageThrows = False\<rparr>" and c = "(250, 40)"
       and s = "run mounted firstSubmission" and d = "run_D mounted_D firstSubmission_D"]
  by (simp add: run_def run_D_def mounted_def mounted_D_def firstSubmission_def
      firstSubmission_D_def canvasOk_def jpeg1_def startCamera_def startCamera_D_def
      startCamera_stream_def startCamera_stream_D_def handleMetadataLoaded_def
      handleMetadataLoaded_D_def startDetectionLoop_def startDetectionLoop_D_def
      stopDetectionLoop_def stopDetectionLoop_D_def captureAndDetect_def captureAndDetect_D_def
      captureAndDetect_toBlob_def captureAndDetect_toBlob_D_def play_def Let_def)

section \<open>What a submission carries\<close>

text \<open>
  C7, as the code has it. Every submission carries the encoded image: the request the
  \<open>toBlob\<close> callback issues holds the blob the encoder delivered, in both views. In the
  developer view it also carries the query parameters \<open>laplacian_threshold\<close> and
  \<open>std_dev_threshold\<close>, with the values the callback's closure captured; these are the
  defaults 250 and 40 in every session in which the user has not moved a slider. In the
  driver view a submission carries no query parameter at all.
\<close>

theorem submission_parameters:
  "inflight (captureAndDetect_toBlob c (Some b) s) =
     inflight s @
       [\<lparr>url = ''/detect-fog'',
         searchParams = [(''laplacian_threshold'', fst c), (''std_dev_threshold'', snd c)],
         formData_file = b, filename = ''capture.jpg'', timeout = 5000\<rparr>] \<and>
   inflight_D (captureAndDetect_toBlob_D (Some b) d) =
     inflight_D d @
       [\<lparr>url = ''/detect-fog'', searchParams = [],
         formData_file = b, filename = ''capture.jpg'', timeout = 5000\<rparr>] \<and>
   (\<forall>r \<in> set (inflight (run mounted evs)).
      ToBlob (Some (formData_file r)) \<in> set evs \<and>
      map fst (searchParams r) = [''laplacian_threshold'', ''std_dev_threshold'']) \<and>
   ((\<forall>ev \<in> set evs. \<not> adjusts ev) \<longrightarrow>
      (\<forall>r \<in> set (inflight (run mounted evs)).
         searchParams r = [(''laplacian_threshold'', 250), (''std_dev_threshold'', 40)])) \<and>
   DEFAULT_LAPLACIAN_THRESHOLD = 250 \<and>
   DEFAULT_HIST_STD_DEV_THRESHOLD = 40 \<and>
   (\<forall>r \<in> set (inflight_D (run_D mounted_D devs)).
      ToBlob_D (Some (formData_file r)) \<in> set devs \<and> searchParams r = [])"
proof -
  have one: "inflight (captureAndDetect_toBlob c (Some b) s) =
     inflight s @
       [\<lparr>url = ''/detect-fog'',
         searchParams = [(''laplacian_threshold'', fst c), (''std_dev_threshold'', snd c)],
         formData_file = b, filename = ''capture.jpg'', timeout = 5000\<rparr>]"
    by (simp add: captureAndDetect_toBlob_def)
  have one_D: "inflight_D (captureAndDetect_toBlob_D (Some b) d) =
     inflight_D d @
       [\<lparr>url = ''/detect-fog'', searchParams = [],
         formData_file = b, filename = ''capture.jpg'', timeout = 5000\<rparr>]"
    by (simp add: captureAndDetect_toBlob_D_def)
  have dflt: "\<forall>r \<in> set (inflight (run mounted evs)).
      searchParams r = [(''laplacian_threshold'', 250), (''std_dev_threshold'', 40)]"
    if "\<forall>ev \<in> set evs. \<not> adjusts ev"
  proof -
    from that have "defaultsOnly (run mounted evs)"
      by (simp add: run_defaults mounted_defaults)
    then show ?thesis
      by (simp add: defaultsOnly_def defaultParams_def DEFAULT_LAPLACIAN_THRESHOLD_def
          DEFAULT_HIST_STD_DEV_THRESHOLD_def)
  qed
  have numbers: "DEFAULT_LAPLACIAN_THRESHOLD = 250" "DEFAULT_HIST_STD_DEV_THRESHOLD = 40"
    by (simp_all add: DEFAULT_LAPLACIAN_THRESHOLD_def DEFAULT_HIST_STD_DEV_THRESHOLD_def)
  from one one_D dflt numbers run_inflight [of evs] run_D_inflight [of devs]
  show ?thesis by blast
qed

text \<open>The theorem at the first submission of a session without slider moves, in each
  view.\<close>

theorem submission_parameters_witness:
  "list_all (\<lambda>ev. \<not> adjusts ev) firstSubmission \<and>
   map searchParams (inflight (run mounted firstSubmission))
     = [[(''laplacian_threshold'', 250), (''std_dev_threshold'', 40)]] \<and>
   map formData_file (inflight (run mounted firstSubmission)) = [jpeg1] \<and>
   map formData_file (inflight_D (run_D mounted_D firstSubmission_D)) = [jpeg1]"
  using submission_parameters [where evs = firstSubmission and devs = firstSubmission_D]
  by (simp add: session_eval)

text \<open>Against C7 as stated: the first submission of a driver-view session carries the
  blob and an empty list of query parameters.\<close>

theorem driver_submission_without_thresholds:
  "map searchParams (inflight_D (run_D mounted_D firstSubmission_D)) = [[]] \<and>
   map formData_file (inflight_D (run_D mounted_D firstSubmission_D)) = [jpeg1]"
  by (simp add: session_eval)

section \<open>Starting\<close>

text \<open>
  C8, evaluated on the code. When the video's metadata has loaded after a successful
  acquisition, \<open>handleMetadataLoaded\<close> runs one cycle at once (its callback is queued when
  the guard passes and the frame rasterizes) and installs the interval, of 1000 ms in the
  developer view and 1500 ms in the driver view. When \<open>getUserMedia\<close> is rejected, both
  views turn the camera flag and the loading indicator off. The driver view reports
  \<open>Camera unavailable. Check permissions.\<close>; the developer view reports nothing: its
  error state is the null that \<open>startCamera\<close> wrote before the attempt.
\<close>

theorem home_acquisition_failure_unreported:
  "error (run s [StartCamera, GetUserMediaError]) = None \<and>
   \<not> isLoading (run s [StartCamera, GetUserMediaError]) \<and>
   \<not> isCameraOn (run s [StartCamera, GetUserMediaError]) \<and>
   error_D (run_D (startCamera_D d) [GetUserMediaError_D])
     = Some ''Camera unavailable. Check permissions.'' \<and>
   \<not> isLoading_D (run_D (startCamera_D d) [GetUserMediaError_D]) \<and>
   \<not> isCameraOn_D (run_D (startCamera_D d) [GetUserMediaError_D]) \<and>
   intervalRef (handleMetadataLoaded c env s) = Some (nextTimeout s) \<and>
   intervals (handleMetadataLoaded c env s) =
     filter (\<lambda>e. Some (fst e) \<noteq> intervalRef s) (intervals s) @ [(nextTimeout s, 1000, c)] \<and>
   intervalRef_D (handleMetadataLoaded_D env d) = Some (nextTimeout_D d) \<and>
   intervals_D (handleMetadataLoaded_D env d) =
     filter (\<lambda>e. Some (fst e) \<noteq> intervalRef_D d) (intervals_D d) @ [(nextTimeout_D d, 1500)] \<and>
   (capturing s \<and> getContext env \<and> \<not> drawImageThrows env \<longrightarrow>
      toBlobQueue (handleMetadataLoaded c env s) = toBlobQueue s @ [c]) \<and>
   (capturing_D d \<and> getContext env \<and> \<not> drawImageThrows env \<longrightarrow>
      toBlobQueue_D (handleMetadataLoaded_D env d) = Suc (toBlobQueue_D d))"
proof -
  have fail: "error (run s [StartCamera, GetUserMediaError]) = None"
    "\<not> isLoading (run s [StartCamera, GetUserMediaError])"
    "\<not> isCameraOn (run s [StartCamera, GetUserMediaError])"
    by (cases "getUserMediaPending s"; simp add: run_def startCamera_def startCamera_catch_def)+
  have fail_D: "error_D (run_D (startCamera_D d) [GetUserMediaError_D])
      = Some ''Camera unavailable. Check permissions.''"
    "\<not> isLoading_D (run_D (startCamera_D d) [GetUserMediaError_D])"
    "\<not> isCameraOn_D (run_D (startCamera_D d) [GetUserMediaError_D])"
    by (simp_all add: run_D_def startCamera_D_def startCamera_catch_D_def)
  have loop: "intervalRef (handleMetadataLoaded c env s) = Some (nextTimeout s)"
    "intervals (handleMetadataLoaded c env s) =
       filter (\<lambda>e. Some (fst e) \<noteq> intervalRef s) (intervals s) @ [(nextTimeout s, 1000, c)]"
    by (simp_all add: handleMetadataLoaded_def startDetectionLoop_def stopDetectionLoop_def
        captureAndDetect_def DETECTION_INTERVAL_MS_def Let_def split: option.splits)
  have loop_D: "intervalRef_D (handleMetadataLoaded_D env d) = Some (nextTimeout_D d)"
    "intervals_D (handleMetadataLoaded_D env d) =
       filter (\<lambda>e. Some (fst e) \<noteq> intervalRef_D d) (intervals_D d) @ [(nextTimeout_D d, 1500)]"
    by (simp_all add: handleMetadataLoaded_D_def startDetectionLoop_D_def stopDetectionLoop_D_def
        captureAndDetect_D_def DETECTION_INTERVAL_MS_D_def Let_def split: option.splits)
  have now: "toBlobQueue (handleMetadataLoaded c env s) = toBlobQueue s @ [c]"
    if "capturing s" "getContext env" "\<not> drawImageThrows env"
    using that
    by (auto simp add: capturing_def handleMetadataLoaded_def startDetectionLoop_def
        stopDetectionLoop_def captureAndDetect_def play_def Let_def split: option.splits)
  have now_D: "toBlobQueue_D (handleMetadataLoaded_D env d) = Suc (toBlobQueue_D d)"
    if "capturing_D d" "getContext env" "\<not> drawImageThrows env"
    using that
    by (auto simp add: capturing_D_def handleMetadataLoaded_D_def startDetectionLoop_D_def
        stopDetectionLoop_D_def captureAndDetect_D_def play_def Let_def split: option.splits)
  from fail fail_D loop loop_D now now_D show ?thesis by blast
qed

text \<open>The theorem at a freshly mounted component of each view whose camera is refused,
  and at the arrival of the metadata in a session that acquired its camera.\<close>

theorem home_acquisition_failure_unreported_witness:
  "error (run mounted [StartCamera, GetUserMediaError]) = None \<and>
   \<not> isCameraOn (run mounted [StartCamera, GetUserMediaError]) \<and>
   error_D (run_D mounted_D [GetUserMediaError_D])
     = Some ''Camera unavailable. Check permissions.'' \<and>
   intervals (run mounted
      [StartCamera, GetUserMediaStream [0], SyncCameraRef, LoadedMetadata 640 480 canvasOk])
     = [(1, 1000, 250, 40)] \<and>
   toBlobQueue (run mounted
      [StartCamera, GetUserMediaStream [0], SyncCameraRef, LoadedMetadata 640 480 canvasOk])
     = [(250, 40)]"
  using home_acquisition_failure_unreported
    [where s = mounted and d = rendered_D and c = "(250, 40)" and env = canvasOk]
  by (simp add: session_eval)

section \<open>Repeated failures in the driver view\<close>

text \<open>
  C9. In the driver view, publishing a cycle's error is idempotent. When the message
  computed for the failure equals the published one, the updater passed to \<open>setError\<close>
  returns the previous value, so the error state is unchanged; settling a second failure
  with the same message after a first changes nothing; and after a request has failed
  with no encoding pending, a whole further cycle (tick, encode, submit, fail with the
  same message) returns to the state the first failure left, up to the canvas having
  been resized to the video.
\<close>

theorem driver_error_publication_idempotent:
  "(error_D s = Some (errorMsg err) \<longrightarrow>
      error_D (captureAndDetect_settled_D (Rejected err) s) = error_D s) \<and>
   (errorMsg err' = errorMsg err \<longrightarrow>
      captureAndDetect_settled_D (Rejected err') (captureAndDetect_settled_D (Rejected err) s)
        = captureAndDetect_settled_D (Rejected err) s) \<and>
   (errorMsg err' = errorMsg err \<and> i < length (inflight_D s) \<and> toBlobQueue_D s = 0 \<longrightarrow>
      (let s1 = step_D s (Settled_D i (Rejected err))
       in (run_D s1 [Tick_D t env, ToBlob_D blob, Settled_D (length (inflight_D s1)) (Rejected err')])
            \<lparr>canvasRef_D := canvasRef_D s1\<rparr> = s1))"
proof -
  have a: "error_D s = Some (errorMsg err) \<Longrightarrow>
      error_D (captureAndDetect_settled_D (Rejected err) s) = error_D s"
    by (simp add: captureAndDetect_settled_D_def)
  have b: "errorMsg err' = errorMsg err \<Longrightarrow>
      captureAndDetect_settled_D (Rejected err') (captureAndDetect_settled_D (Rejected err) s)
        = captureAndDetect_settled_D (Rejected err) s"
    by (simp add: captureAndDetect_settled_D_def)
  have cycle: "(run_D s' [Tick_D t env, ToBlob_D blob, Settled_D (length (inflight_D s')) (Rejected err')])
        \<lparr>canvasRef_D := canvasRef_D s'\<rparr> = s'"
    if "error_D s' = Some (errorMsg err')" "detectionResult_D s' = None" "\<not> isDetecting_D s'"
      "toBlobQueue_D s' = 0"
    for s'
    using that
    by (cases blob)
       (simp_all add: run_D_def captureAndDetect_settled_D_def captureAndDetect_D_def
          captureAndDetect_toBlob_D_def Let_def split: option.splits)
  have c: "(let s1 = step_D s (Settled_D i (Rejected err))
       in (run_D s1 [Tick_D t env, ToBlob_D blob, Settled_D (length (inflight_D s1)) (Rejected err')])
            \<lparr>canvasRef_D := canvasRef_D s1\<rparr> = s1)"
    if eq: "errorMsg err' = errorMsg err" and i: "i < length (inflight_D s)"
      and q: "toBlobQueue_D s = 0"
  proof -
    let ?s1 = "step_D s (Settled_D i (Rejected err))"
    from eq i q have "error_D ?s1 = Some (errorMsg err')" "detectionResult_D ?s1 = None"
      "\<not> isDetecting_D ?s1" "toBlobQueue_D ?s1 = 0"
      by (simp_all add: captureAndDetect_settled_D_def)
    then show ?thesis unfolding Let_def by (rule cycle)
  qed
  from a b c show ?thesis by blast
qed

text \<open>The theorem at a driver-view session whose first request timed out: the next cycle
  times out as well and ends in the very same state.\<close>

theorem driver_error_publication_idempotent_witness:
  "error_D (run_D mounted_D (firstSubmission_D @ [Settled_D 0 (Rejected timedOut)]))
     = Some (errorMsg timedOut) \<and>
   run_D mounted_D (firstSubmission_D @ [Settled_D 0 (Rejected timedOut),
      Tick_D 1 canvasOk, ToBlob_D (Some jpeg2), Settled_D 0 (Rejected timedOut)])
     = run_D mounted_D (firstSubmission_D @ [Settled_D 0 (Rejected timedOut)])"
  using driver_error_publication_idempotent
    [where s = "run_D mounted_D firstSubmission_D" and i = 0 and err = timedOut
       and err' = timedOut and t = 1 and env = canvasOk and blob = "Some jpeg2"]
  by (simp add: session_eval)

section \<open>Outputs of an earlier session\<close>

text \<open>
  C10, as the code has it. \<open>startCamera\<close> clears the error, the result and (developer
  view) the histogram and sets the loading indicator before \<open>getUserMedia\<close> is pending,
  in both views. In the driver view start runs once for the life of a mounted component,
  from the mount effect, and no result is published before that component has captured a
  frame: no result of an earlier session is ever shown. In the developer view, which can
  be stopped and started again while mounted, the same holds for a start at which no frame
  is being encoded and no request is unresolved: the result and the histogram stay empty
  until a frame is captured after the start. A frame of the earlier session that is still
  being encoded or whose request is still unresolved is not covered: its response is
  published when it arrives.
\<close>

theorem startCamera_clears_outputs:
  "error (startCamera s) = None \<and>
   detectionResult (startCamera s) = None \<and>
   histogramData (startCamera s) = [] \<and>
   isLoading (startCamera s) \<and>
   getUserMediaPending (startCamera s)
     = getUserMediaPending s @ [(laplacianThreshold s, histStdDevThreshold s)] \<and>
   (toBlobQueue s = [] \<and> inflight s = [] \<and> (\<forall>ev \<in> set evs. \<not> captures ev) \<longrightarrow>
      detectionResult (run s (StartCamera # evs)) = None \<and>
      histogramData (run s (StartCamera # evs)) = []) \<and>
   error_D (startCamera_D d) = None \<and>
   detectionResult_D (startCamera_D d) = None \<and>
   isLoading_D (startCamera_D d) \<and>
   getUserMediaPending_D (startCamera_D d) = Suc (getUserMediaPending_D d) \<and>
   ((\<forall>ev \<in> set devs. \<not> captures_D ev) \<longrightarrow>
      detectionResult_D (run_D mounted_D devs) = None)"
proof -
  have clear: "error (startCamera s) = None" "detectionResult (startCamera s) = None"
    "histogramData (startCamera s) = []" "isLoading (startCamera s)"
    "getUserMediaPending (startCamera s)
       = getUserMediaPending s @ [(laplacianThreshold s, histStdDevThreshold s)]"
    by (simp_all add: startCamera_def)
  have clear_D: "error_D (startCamera_D d) = None" "detectionResult_D (startCamera_D d) = None"
    "isLoading_D (startCamera_D d)"
    "getUserMediaPending_D (startCamera_D d) = Suc (getUserMediaPending_D d)"
    by (simp_all add: startCamera_D_def)
  have stay: "detectionResult (run s (StartCamera # evs)) = None \<and>
      histogramData (run s (StartCamera # evs)) = []"
    if "toBlobQueue s = []" "inflight s = []" "\<forall>ev \<in> set evs. \<not> captures ev"
  proof -
    from that(1,2) have "calm (startCamera s)" by (simp add: calm_def startCamera_def)
    with that(3) have "calm (run (startCamera s) evs)" by (simp add: run_calm)
    then show ?thesis by (simp add: calm_def run_def)
  qed
  have stay_D: "detectionResult_D (run_D mounted_D devs) = None"
    if "\<forall>ev \<in> set devs. \<not> captures_D ev"
  proof -
    have "calm_D mounted_D"
      by (simp add: calm_D_def mounted_D_def rendered_D_def startCamera_D_def)
    with that have "calm_D (run_D mounted_D devs)" by (simp add: run_D_calm)
    then show ?thesis by (simp add: calm_D_def)
  qed
  from clear clear_D stay stay_D show ?thesis by blast
qed

text \<open>The theorem at a developer view that published a result, was stopped with nothing
  outstanding and is started again, and at a mounted driver view: up to the arrival of
  the stream and the render that follows, no result is published.\<close>

theorem startCamera_clears_outputs_witness:
  "detectionResult (run mounted (firstSubmission @ [Settled 0 (Fulfilled foggy)])) = Some foggy \<and>
   toBlobQueue (run mounted (firstSubmission @ [Settled 0 (Fulfilled foggy), StopCamera])) = [] \<and>
   inflight (run mounted (firstSubmission @ [Settled 0 (Fulfilled foggy), StopCamera])) = [] \<and>
   list_all (\<lambda>ev. \<not> captures ev) [GetUserMediaStream [1], SyncCameraRef] \<and>
   detectionResult
     (run (run mounted (firstSubmission @ [Settled 0 (Fulfilled foggy), StopCamera]))
        [StartCamera, GetUserMediaStream [1], SyncCameraRef])
     = None \<and>
   detectionResult_D (run_D mounted_D [GetUserMediaStream_D [1], SyncCameraRef_D]) = None"
  using startCamera_clears_outputs
    [where s = "run mounted (firstSubmission @ [Settled 0 (Fulfilled foggy), StopCamera])"
       and evs = "[GetUserMediaStream [1], SyncCameraRef]"
       and devs = "[GetUserMediaStream_D [1], SyncCameraRef_D]"]
  by (simp add: session_eval)

text \<open>Against C10 as stated: a developer view is stopped with its Stop button while its
  request is outstanding and started again; the response arrives while \<open>getUserMedia\<close> is
  still pending, and the result of the earlier session is published during the start and
  is still published when the new session runs. The same happens when a frame of the
  earlier session is still being encoded at the stop.\<close>

theorem stale_result_during_starting:
  "isLoading (run mounted (firstSubmission @ [StopCamera, StartCamera, Settled 0 (Fulfilled foggy)])) \<and>
   length (getUserMediaPending
     (run mounted (firstSubmission @ [StopCamera, StartCamera, Settled 0 (Fulfilled foggy)]))) = 1 \<and>
   detectionResult
     (run mounted (firstSubmission @ [StopCamera, StartCamera, Settled 0 (Fulfilled foggy)]))
     = Some foggy \<and>
   isCameraOn
     (run mounted (firstSubmission @ [StopCamera, StartCamera, Settled 0 (Fulfilled foggy),
        GetUserMediaStream [1], SyncCameraRef, LoadedMetadata 640 480 canvasOk])) \<and>
   detectionResult
     (run mounted (firstSubmission @ [StopCamera, StartCamera, Settled 0 (Fulfilled foggy),
        GetUserMediaStream [1], SyncCameraRef, LoadedMetadata 640 480 canvasOk]))
     = Some foggy \<and>
   inflight
     (run mounted (firstSubmission @ [Settled 0 (Rejected timedOut), Tick 1 canvasOk, StopCamera]))
     = [] \<and>
   isLoading
     (run mounted (firstSubmission @ [Settled 0 (Rejected timedOut), Tick 1 canvasOk, StopCamera,
        StartCamera, ToBlob (Some jpeg2), Settled 0 (Fulfilled foggy)])) \<and>
   detectionResult
     (run mounted (firstSubmission @ [Settled 0 (Rejected timedOut), Tick 1 canvasOk, StopCamera,
        StartCamera, ToBlob (Some jpeg2), Settled 0 (Fulfilled foggy)]))
     = Some foggy"
  by (simp add: session_eval)

end
